theory Spec2Isabelle
  imports Main "HOL-Library.Multiset" "HOL-Library.Sublist"
begin

section \<open>Go values and the standard-library calls of the handlers\<close>

text \<open>
  The handlers of \<^verbatim>\<open>api/index.go\<close> pass values of type \<^verbatim>\<open>interface{}\<close> around: the
  positional SQL arguments, the JSON-decoded tool arguments and the preset filter values.
  The dynamic types that occur are listed here. \<^verbatim>\<open>float64\<close> values are only ever carried,
  never computed with, so their type is left as the parameter \<open>'f\<close>.
\<close>

datatype 'f iface =
    INil
  | IString string
  | IFloat64 'f
  | IInt int
  | IBool bool
  | IStrings "string list"

text \<open>A Go slice is either \<^verbatim>\<open>nil\<close> or holds elements; \<^verbatim>\<open>encoding/json\<close> writes the former
  as \<^verbatim>\<open>null\<close> and the latter as an array.\<close>

datatype 'a slice = NilSlice | Slice "'a list"

fun elems :: "'a slice \<Rightarrow> 'a list" where
  "elems NilSlice = []"
| "elems (Slice xs) = xs"

text \<open>The JSON values a \<^verbatim>\<open>[]string\<close> field of a response can take: \<^verbatim>\<open>json.Marshal\<close>
  writes a nil slice as \<^verbatim>\<open>null\<close> and every other slice as the array of its strings.\<close>

datatype json = JNull | JString string | JArray "json list"

fun Marshal :: "string slice \<Rightarrow> json" where
  "Marshal NilSlice = JNull"
| "Marshal (Slice xs) = JArray (map JString xs)"

type_synonym 'f sql = "string \<times> 'f iface list"

subsection \<open>\<^verbatim>\<open>strconv.Atoi\<close>\<close>

text \<open>
  \<^verbatim>\<open>strconv.Atoi\<close> on a platform whose \<^verbatim>\<open>int\<close> has 64 bits: an optional sign, then
  one or more decimal digits, and the value must fit the type. Every other string (and a value
  out of range) gives an error, here \<open>None\<close>.
\<close>

definition isDigit :: "char \<Rightarrow> bool" where
  "isDigit c \<longleftrightarrow> (48::int) \<le> of_char c \<and> of_char c \<le> (57::int)"

fun digitsValue :: "string \<Rightarrow> int \<Rightarrow> int option" where
  "digitsValue [] n = Some n"
| "digitsValue (c # cs) n =
     (if isDigit c then digitsValue cs (n * 10 + (of_char c - 48)) else None)"

definition Atoi :: "string \<Rightarrow> int option" where
  "Atoi s =
     (case s of
        [] \<Rightarrow> None
      | c # cs \<Rightarrow>
          (let body = (if c = CHR ''-'' \<or> c = CHR ''+'' then cs else s) in
           if body = [] then None
           else (case digitsValue body 0 of
                   None \<Rightarrow> None
                 | Some n \<Rightarrow>
                     (let v = (if c = CHR ''-'' then - n else n) in
                      if - (2 ^ 63) \<le> v \<and> v \<le> 2 ^ 63 - 1 then Some v else None))))"

subsection \<open>\<^verbatim>\<open>strings.Split\<close> and \<^verbatim>\<open>strings.TrimSpace\<close>\<close>

text \<open>\<^verbatim>\<open>strings.Split(s, sep)\<close> for a one-byte separator: the pieces between the
  occurrences of the separator, one more than there are occurrences.\<close>

fun Split :: "string \<Rightarrow> char \<Rightarrow> string list" where
  "Split [] sep = [[]]"
| "Split (c # cs) sep =
     (if c = sep then [] # Split cs sep
      else (case Split cs sep of
              [] \<Rightarrow> [[c]]
            | t # ts \<Rightarrow> (c # t) # ts))"

text \<open>
  \<^verbatim>\<open>strings.TrimSpace\<close> removes the leading and the trailing white space of a string,
  where white space is what \<^verbatim>\<open>unicode.IsSpace\<close> accepts. A Go string is a byte sequence,
  so the white-space code points are listed by their UTF-8 encodings: the six ASCII ones,
  U+0085, U+00A0, U+1680, U+2000 to U+200A, U+2028, U+2029, U+202F, U+205F and U+3000.
\<close>

definition spaceRunes :: "string list" where
  "spaceRunes =
     [[CHR 0x09], [CHR 0x0A], [CHR 0x0B], [CHR 0x0C], [CHR 0x0D], [CHR 0x20],
      [CHR 0xC2, CHR 0x85], [CHR 0xC2, CHR 0xA0],
      [CHR 0xE1, CHR 0x9A, CHR 0x80],
      [CHR 0xE2, CHR 0x80, CHR 0x80], [CHR 0xE2, CHR 0x80, CHR 0x81],
      [CHR 0xE2, CHR 0x80, CHR 0x82], [CHR 0xE2, CHR 0x80, CHR 0x83],
      [CHR 0xE2, CHR 0x80, CHR 0x84], [CHR 0xE2, CHR 0x80, CHR 0x85],
      [CHR 0xE2, CHR 0x80, CHR 0x86], [CHR 0xE2, CHR 0x80, CHR 0x87],
      [CHR 0xE2, CHR 0x80, CHR 0x88], [CHR 0xE2, CHR 0x80, CHR 0x89],
      [CHR 0xE2, CHR 0x80, CHR 0x8A],
      [CHR 0xE2, CHR 0x80, CHR 0xA8], [CHR 0xE2, CHR 0x80, CHR 0xA9],
      [CHR 0xE2, CHR 0x80, CHR 0xAF],
      [CHR 0xE2, CHR 0x81, CHR 0x9F],
      [CHR 0xE3, CHR 0x80, CHR 0x80]]"

text \<open>The number of bytes of the white-space rune a string starts with, 0 when it starts
  with none; \<open>rs\<close> are the encodings to look for.\<close>

definition leadingRune :: "string list \<Rightarrow> string \<Rightarrow> nat" where
  "leadingRune rs s =
     (case find (\<lambda>r. take (length r) s = r) rs of
        None \<Rightarrow> 0
      | Some r \<Rightarrow> length r)"

fun stripRunes :: "string list \<Rightarrow> string \<Rightarrow> string" where
  "stripRunes rs [] = []"
| "stripRunes rs (c # cs) =
     (let n = leadingRune rs (c # cs) in
      if n = 0 then c # cs else stripRunes rs (drop (n - 1) cs))"

definition TrimSpace :: "string \<Rightarrow> string" where
  "TrimSpace s = rev (stripRunes (map rev spaceRunes) (rev (stripRunes spaceRunes s)))"

subsection \<open>What the source leaves to the runtime\<close>

text \<open>
  Three things the handlers use are decided outside the repository and are taken as
  parameters of the model, gathered in one record:
  \<^item> \<^verbatim>\<open>strconv.ParseFloat(s, 64)\<close>, with \<open>None\<close> for a non-nil error;
  \<^item> \<^verbatim>\<open>json.Unmarshal(data, &v)\<close> for a \<^verbatim>\<open>[]string\<close> target: the value it leaves in
    the target and whether it reports an error;
  \<^item> the order in which a \<^verbatim>\<open>for ... range\<close> loop visits the entries of a Go map, which
    the language leaves unspecified: \<open>rangePlan\<close> is applied to the entries of a preset's
    filter map and \<open>rangeFilters\<close> to the entries of the tool surface's filter map, each
    written in the order of the source literal, and returns them in the order visited.
\<close>

record 'f env =
  ParseFloat :: "string \<Rightarrow> 'f option"
  Unmarshal :: "string \<Rightarrow> string slice \<Rightarrow> string slice \<times> bool"
  rangePlan :: "(string \<times> 'f iface) list \<Rightarrow> (string \<times> 'f iface) list"
  rangeFilters :: "(string \<times> string) list \<Rightarrow> (string \<times> string) list"

text \<open>A range loop visits every entry of the map exactly once.\<close>

definition rangeVisitsAll :: "'f env \<Rightarrow> bool" where
  "rangeVisitsAll e \<longleftrightarrow>
     (\<forall>m. mset (rangePlan e m) = mset m) \<and> (\<forall>m. mset (rangeFilters e m) = mset m)"

section \<open>The data of \<^verbatim>\<open>api/index.go\<close>\<close>

record 'f Recipe =
  ID :: int
  Name :: string
  Description :: string
  Image :: string
  PrepTimeMinutes :: "int option"
  CookTimeMinutes :: "int option"
  TotalTimeMinutes :: "int option"
  Servings :: "int option"
  Rating :: "'f option"
  Ingredients :: "string slice"
  Instructions :: "string slice"
  Calories :: "int option"
  Protein :: "'f option"
  Fat :: "'f option"
  Carbs :: "'f option"
  Fiber :: "'f option"
  Sodium :: "'f option"

record 'f DietPlan =
  PlanName :: string
  PlanDescription :: string
  Filters :: "(string \<times> 'f iface) list"

definition dietPlanTable :: "(string \<times> 'f DietPlan) list" where
  "dietPlanTable =
     [(''keto'', \<lparr>PlanName = ''Ketogenic Diet'',
         PlanDescription = ''High fat, very low carb diet for ketosis'',
         Filters = [(''max_carbs'', IInt 20), (''min_fat'', IInt 15),
                    (''sort_by'', IString ''fat''), (''sort_order'', IString ''desc'')]\<rparr>),
      (''paleo'', \<lparr>PlanName = ''Paleo Diet'',
         PlanDescription = ''Whole foods, no processed ingredients'',
         Filters = [(''exclude_ingredients'',
                       IStrings [''wheat'', ''grain'', ''dairy'', ''sugar'', ''legume'', ''bean'']),
                    (''sort_by'', IString ''protein''), (''sort_order'', IString ''desc'')]\<rparr>),
      (''mediterranean'', \<lparr>PlanName = ''Mediterranean Diet'',
         PlanDescription = ''Heart-healthy with olive oil, fish, and vegetables'',
         Filters = [(''include_ingredients'',
                       IStrings [''olive'', ''fish'', ''vegetable'', ''fruit'', ''nut'']),
                    (''max_sodium'', IInt 1500),
                    (''sort_by'', IString ''rating''), (''sort_order'', IString ''desc'')]\<rparr>),
      (''vegan'', \<lparr>PlanName = ''Vegan Diet'',
         PlanDescription = ''Plant-based, no animal products'',
         Filters = [(''exclude_ingredients'',
                       IStrings [''meat'', ''chicken'', ''beef'', ''pork'', ''fish'', ''dairy'',
                                 ''milk'', ''cheese'', ''egg'', ''butter'']),
                    (''sort_by'', IString ''fiber''), (''sort_order'', IString ''desc'')]\<rparr>),
      (''vegetarian'', \<lparr>PlanName = ''Vegetarian Diet'',
         PlanDescription = ''No meat, but includes dairy and eggs'',
         Filters = [(''exclude_ingredients'',
                       IStrings [''meat'', ''chicken'', ''beef'', ''pork'', ''fish'', ''seafood'']),
                    (''sort_by'', IString ''protein''), (''sort_order'', IString ''desc'')]\<rparr>),
      (''low_carb'', \<lparr>PlanName = ''Low Carb Diet'',
         PlanDescription = ''Reduced carbohydrate intake'',
         Filters = [(''max_carbs'', IInt 50),
                    (''sort_by'', IString ''carbs''), (''sort_order'', IString ''asc'')]\<rparr>),
      (''high_protein'', \<lparr>PlanName = ''High Protein Diet'',
         PlanDescription = ''Protein-rich foods for muscle building'',
         Filters = [(''min_protein'', IInt 20),
                    (''sort_by'', IString ''protein''), (''sort_order'', IString ''desc'')]\<rparr>),
      (''low_sodium'', \<lparr>PlanName = ''Low Sodium Diet'',
         PlanDescription = ''Heart-healthy, reduced sodium intake'',
         Filters = [(''max_sodium'', IInt 1000),
                    (''sort_by'', IString ''sodium''), (''sort_order'', IString ''asc'')]\<rparr>),
      (''diabetic'', \<lparr>PlanName = ''Diabetic Friendly'',
         PlanDescription = ''Low sugar, controlled carbs'',
         Filters = [(''max_carbs'', IInt 45),
                    (''exclude_ingredients'', IStrings [''sugar'', ''honey'', ''syrup'', ''candy'']),
                    (''sort_by'', IString ''carbs''), (''sort_order'', IString ''asc'')]\<rparr>),
      (''heart_healthy'', \<lparr>PlanName = ''Heart Healthy'',
         PlanDescription = ''Low sodium, healthy fats'',
         Filters = [(''max_sodium'', IInt 1200), (''min_fiber'', IInt 5),
                    (''exclude_ingredients'', IStrings [''fried'', ''processed'']),
                    (''sort_by'', IString ''fiber''), (''sort_order'', IString ''desc'')]\<rparr>)]"

definition dietPlans :: "string \<Rightarrow> 'f DietPlan option" where
  "dietPlans = map_of dietPlanTable"

definition selectRecipes :: string where
  "selectRecipes = ''SELECT id, name, description, image, prep_time_minutes, cook_time_minutes, total_time_minutes, servings, rating, ingredients, instructions, calories, protein, fat, carbs, fiber, sodium FROM recipes WHERE 1=1''"

definition validSortColumns :: "string list" where
  "validSortColumns =
     [''id'', ''name'', ''prep_time_minutes'', ''cook_time_minutes'',
      ''total_time_minutes'', ''servings'', ''rating'', ''calories'',
      ''protein'', ''fat'', ''carbs'', ''fiber'', ''sodium'']"

section \<open>Building the query\<close>

subsection \<open>\<^verbatim>\<open>applyDietFilters\<close>\<close>

text \<open>The loop \<^verbatim>\<open>for _, ingredient := range ingredients\<close>: one fragment and one wildcard
  argument for each token.\<close>

fun appendLike :: "string \<Rightarrow> string list \<Rightarrow> 'f sql \<Rightarrow> 'f sql" where
  "appendLike fragment [] (query, args) = (query, args)"
| "appendLike fragment (ingredient # rest) (query, args) =
     appendLike fragment rest (query @ fragment, args @ [IString (''%'' @ ingredient @ ''%'')])"

text \<open>The twelve range cases of the \<^verbatim>\<open>switch key\<close>, each with the fragment it appends.\<close>

definition dietRangeCases :: "(string \<times> string) list" where
  "dietRangeCases =
     [(''max_carbs'', '' AND carbs <= ?''), (''min_carbs'', '' AND carbs >= ?''),
      (''max_calories'', '' AND calories <= ?''), (''min_calories'', '' AND calories >= ?''),
      (''max_protein'', '' AND protein <= ?''), (''min_protein'', '' AND protein >= ?''),
      (''max_fat'', '' AND fat <= ?''), (''min_fat'', '' AND fat >= ?''),
      (''max_fiber'', '' AND fiber <= ?''), (''min_fiber'', '' AND fiber >= ?''),
      (''max_sodium'', '' AND sodium <= ?''), (''min_sodium'', '' AND sodium >= ?'')]"

text \<open>One iteration of the loop over the preset's filter map. A key with no case in the
  switch, such as \<^verbatim>\<open>sort_by\<close> and \<^verbatim>\<open>sort_order\<close>, changes nothing.\<close>

fun dietFilter :: "string \<times> 'f iface \<Rightarrow> 'f sql \<Rightarrow> 'f sql" where
  "dietFilter (key, value) (query, args) =
     (case map_of dietRangeCases key of
        Some fragment \<Rightarrow>
          (case value of
             IInt val \<Rightarrow> (query @ fragment, args @ [IInt val])
           | _ \<Rightarrow> (query, args))
      | None \<Rightarrow>
          if key = ''exclude_ingredients'' then
            (case value of
               IStrings ingredients \<Rightarrow>
                 appendLike '' AND ingredients NOT LIKE ?'' ingredients (query, args)
             | _ \<Rightarrow> (query, args))
          else if key = ''include_ingredients'' then
            (case value of
               IStrings ingredients \<Rightarrow>
                 appendLike '' AND ingredients LIKE ?'' ingredients (query, args)
             | _ \<Rightarrow> (query, args))
          else (query, args))"

text \<open>\<open>filters\<close> holds the entries of the map in the order the loop visits them.\<close>

definition applyDietFilters ::
  "string \<Rightarrow> 'f iface list \<Rightarrow> (string \<times> 'f iface) list \<Rightarrow> 'f sql" where
  "applyDietFilters query args filters = fold dietFilter filters (query, args)"

text \<open>The block both surfaces start with: a non-empty \<^verbatim>\<open>diet\<close> that names a plan applies
  the plan's filters.\<close>

definition withDiet :: "'f env \<Rightarrow> string \<Rightarrow> 'f sql \<Rightarrow> 'f sql" where
  "withDiet e diet s =
     (if diet \<noteq> '''' then
        (case dietPlans diet of
           Some plan \<Rightarrow> applyDietFilters (fst s) (snd s) (rangePlan e (Filters plan))
         | None \<Rightarrow> s)
      else s)"

subsection \<open>The sort clause\<close>

text \<open>Shared verbatim by \<^verbatim>\<open>searchRecipes\<close> and \<^verbatim>\<open>mcpSearchRecipes\<close>.\<close>

definition orderBy :: "string \<Rightarrow> string \<Rightarrow> string \<Rightarrow> string" where
  "orderBy sortBy sortOrder query =
     (if sortBy \<in> set validSortColumns then
        (if sortOrder = ''desc'' then query @ '' ORDER BY '' @ sortBy @ '' DESC''
         else query @ '' ORDER BY '' @ sortBy @ '' ASC'')
      else query)"

subsection \<open>\<^verbatim>\<open>searchRecipes\<close>: the REST surface\<close>

text \<open>The query string of the request: \<^verbatim>\<open>c.Query\<close> gives the value of a key, or the empty
  string when the key is absent; \<^verbatim>\<open>c.DefaultQuery\<close> gives the default only when it is
  absent.\<close>

type_synonym params = "string \<rightharpoonup> string"

definition Query :: "params \<Rightarrow> string \<Rightarrow> string" where
  "Query c key = (case c key of Some v \<Rightarrow> v | None \<Rightarrow> '''')"

definition DefaultQuery :: "params \<Rightarrow> string \<Rightarrow> string \<Rightarrow> string" where
  "DefaultQuery c key defaultValue = (case c key of Some v \<Rightarrow> v | None \<Rightarrow> defaultValue)"

fun textSearch :: "string \<Rightarrow> 'f sql \<Rightarrow> 'f sql" where
  "textSearch search (query, args) =
     (if search \<noteq> '''' then
        (query @ '' AND (name LIKE ? OR description LIKE ?)'',
         args @ [IString (''%'' @ search @ ''%''), IString (''%'' @ search @ ''%'')])
      else (query, args))"

definition ingredientFilter :: "string \<Rightarrow> string \<Rightarrow> 'f sql \<Rightarrow> 'f sql" where
  "ingredientFilter fragment ingredients s =
     (if ingredients \<noteq> '''' then
        appendLike fragment (map TrimSpace (Split ingredients CHR '','')) s
      else s)"

text \<open>The twenty-two numeric blocks, in the order of the source: the parameter, the
  \<^verbatim>\<open>strconv\<close> function the block parses it with, and the fragment it appends.\<close>

datatype numParser = UseAtoi | UseParseFloat

definition numericParams :: "(string \<times> numParser \<times> string) list" where
  "numericParams =
     [(''min_calories'', UseAtoi, '' AND calories >= ?''),
      (''max_calories'', UseAtoi, '' AND calories <= ?''),
      (''min_protein'', UseParseFloat, '' AND protein >= ?''),
      (''max_protein'', UseParseFloat, '' AND protein <= ?''),
      (''min_fat'', UseParseFloat, '' AND fat >= ?''),
      (''max_fat'', UseParseFloat, '' AND fat <= ?''),
      (''min_carbs'', UseParseFloat, '' AND carbs >= ?''),
      (''max_carbs'', UseParseFloat, '' AND carbs <= ?''),
      (''min_fiber'', UseParseFloat, '' AND fiber >= ?''),
      (''max_fiber'', UseParseFloat, '' AND fiber <= ?''),
      (''min_sodium'', UseParseFloat, '' AND sodium >= ?''),
      (''max_sodium'', UseParseFloat, '' AND sodium <= ?''),
      (''min_prep_time'', UseAtoi, '' AND prep_time_minutes >= ?''),
      (''max_prep_time'', UseAtoi, '' AND prep_time_minutes <= ?''),
      (''min_cook_time'', UseAtoi, '' AND cook_time_minutes >= ?''),
      (''max_cook_time'', UseAtoi, '' AND cook_time_minutes <= ?''),
      (''min_total_time'', UseAtoi, '' AND total_time_minutes >= ?''),
      (''max_total_time'', UseAtoi, '' AND total_time_minutes <= ?''),
      (''min_servings'', UseAtoi, '' AND servings >= ?''),
      (''max_servings'', UseAtoi, '' AND servings <= ?''),
      (''min_rating'', UseParseFloat, '' AND rating >= ?''),
      (''max_rating'', UseParseFloat, '' AND rating <= ?'')]"

text \<open>The parsed value as it is appended to the arguments, \<open>None\<close> when parsing fails.\<close>

fun parseNumber :: "'f env \<Rightarrow> numParser \<Rightarrow> string \<Rightarrow> 'f iface option" where
  "parseNumber e UseAtoi s = map_option IInt (Atoi s)"
| "parseNumber e UseParseFloat s = map_option IFloat64 (ParseFloat e s)"

fun numericFilter ::
  "'f env \<Rightarrow> params \<Rightarrow> string \<times> numParser \<times> string \<Rightarrow> 'f sql \<Rightarrow> 'f sql" where
  "numericFilter e c (key, parser, fragment) (query, args) =
     (if Query c key \<noteq> '''' then
        (case parseNumber e parser (Query c key) of
           Some val \<Rightarrow> (query @ fragment, args @ [val])
         | None \<Rightarrow> (query, args))
      else (query, args))"

text \<open>The query and its arguments before the sort clause is appended.\<close>

definition searchRecipesWhere :: "'f env \<Rightarrow> params \<Rightarrow> 'f sql" where
  "searchRecipesWhere e c =
     fold (numericFilter e c) numericParams
       (ingredientFilter '' AND ingredients NOT LIKE ?'' (Query c ''exclude_ingredients'')
         (ingredientFilter '' AND ingredients LIKE ?'' (Query c ''include_ingredients'')
           (textSearch (Query c ''search'')
             (withDiet e (Query c ''diet'') (selectRecipes, [])))))"

text \<open>The query text and the arguments handed to \<^verbatim>\<open>db.Query\<close>.\<close>

definition searchRecipesSQL :: "'f env \<Rightarrow> params \<Rightarrow> 'f sql" where
  "searchRecipesSQL e c =
     (let sortBy = DefaultQuery c ''sort_by'' ''id'';
          sortOrder = DefaultQuery c ''sort_order'' ''asc''
      in (orderBy sortBy sortOrder (fst (searchRecipesWhere e c)) @ '' LIMIT 100'',
          snd (searchRecipesWhere e c)))"

subsection \<open>\<^verbatim>\<open>mcpSearchRecipes\<close>: the tool-call surface\<close>

text \<open>The tool arguments are a JSON object decoded into \<^verbatim>\<open>map[string]interface{}\<close>.
  A type assertion \<^verbatim>\<open>args[key].(string)\<close> that fails gives the empty string, so the test
  \<^verbatim>\<open>ok && s != ""\<close> is the test that this value is not empty.\<close>

type_synonym 'f arguments = "string \<rightharpoonup> 'f iface"

definition stringArg :: "'f arguments \<Rightarrow> string \<Rightarrow> string" where
  "stringArg args key = (case args key of Some (IString s) \<Rightarrow> s | _ \<Rightarrow> '''')"

text \<open>The map \<^verbatim>\<open>filters\<close> of the function, as the source writes it.\<close>

definition mcpFilters :: "(string \<times> string) list" where
  "mcpFilters =
     [(''search'', ''AND (name LIKE ? OR description LIKE ?)''),
      (''include_ingredients'', ''AND ingredients LIKE ?''),
      (''exclude_ingredients'', ''AND ingredients NOT LIKE ?''),
      (''min_calories'', ''AND calories >= ?''),
      (''max_calories'', ''AND calories <= ?''),
      (''min_protein'', ''AND protein >= ?''),
      (''max_protein'', ''AND protein <= ?''),
      (''min_carbs'', ''AND carbs >= ?''),
      (''max_carbs'', ''AND carbs <= ?''),
      (''max_prep_time'', ''AND prep_time_minutes <= ?'')]"

text \<open>One iteration of \<^verbatim>\<open>for key, condition := range filters\<close>. In the default case a
  non-empty string appends the condition before it is parsed, and the argument only when
  parsing succeeds.\<close>

fun mcpFilter :: "'f env \<Rightarrow> 'f arguments \<Rightarrow> string \<times> string \<Rightarrow> 'f sql \<Rightarrow> 'f sql" where
  "mcpFilter e args (key, condition) (query, sqlArgs) =
     (case args key of
        None \<Rightarrow> (query, sqlArgs)
      | Some INil \<Rightarrow> (query, sqlArgs)
      | Some value \<Rightarrow>
          if key = ''search'' then
            (case value of
               IString str \<Rightarrow>
                 if str \<noteq> '''' then
                   (query @ '' '' @ condition,
                    sqlArgs @ [IString (''%'' @ str @ ''%''), IString (''%'' @ str @ ''%'')])
                 else (query, sqlArgs)
             | _ \<Rightarrow> (query, sqlArgs))
          else if key = ''include_ingredients'' \<or> key = ''exclude_ingredients'' then
            (case value of
               IString str \<Rightarrow>
                 if str \<noteq> '''' then
                   appendLike ('' '' @ condition) (map TrimSpace (Split str CHR '','')) (query, sqlArgs)
                 else (query, sqlArgs)
             | _ \<Rightarrow> (query, sqlArgs))
          else
            (case value of
               IString str \<Rightarrow>
                 if str \<noteq> '''' then
                   (case ParseFloat e str of
                      Some val \<Rightarrow> (query @ '' '' @ condition, sqlArgs @ [IFloat64 val])
                    | None \<Rightarrow> (query @ '' '' @ condition, sqlArgs))
                 else (query, sqlArgs)
             | IFloat64 num \<Rightarrow> (query @ '' '' @ condition, sqlArgs @ [IFloat64 num])
             | _ \<Rightarrow> (query, sqlArgs)))"

definition mcpSearchRecipesWhere :: "'f env \<Rightarrow> 'f arguments \<Rightarrow> 'f sql" where
  "mcpSearchRecipesWhere e args =
     fold (mcpFilter e args) (rangeFilters e mcpFilters)
       (withDiet e (stringArg args ''diet'') (selectRecipes, []))"

definition mcpSearchRecipesSQL :: "'f env \<Rightarrow> 'f arguments \<Rightarrow> 'f sql" where
  "mcpSearchRecipesSQL e args =
     (let sortBy = (if stringArg args ''sort_by'' \<noteq> '''' then stringArg args ''sort_by'' else ''id'');
          sortOrder =
            (if stringArg args ''sort_order'' \<noteq> '''' then stringArg args ''sort_order'' else ''asc'')
      in (orderBy sortBy sortOrder (fst (mcpSearchRecipesWhere e args)) @ '' LIMIT 20'',
          snd (mcpSearchRecipesWhere e args)))"

section \<open>Reading the rows\<close>

text \<open>
  A row of the result set, as \<^verbatim>\<open>rows.Scan\<close> leaves it: the scalar destinations inside the
  fresh \<^verbatim>\<open>Recipe\<close> (its two list fields are not among the destinations and stay \<^verbatim>\<open>nil\<close>),
  the two strings that receive the serialized lists, and whether \<^verbatim>\<open>Scan\<close> returned an
  error (it stops at the first column it cannot convert, leaving the later destinations at
  their zero values).
\<close>

record 'f row =
  scanned :: "'f Recipe"
  ingredientsJSON :: string
  instructionsJSON :: string
  scanErr :: bool

text \<open>\<^verbatim>\<open>if ingredientsJSON != "" { json.Unmarshal([]byte(ingredientsJSON), &recipe.Ingredients) }\<close>:
  the field starts as the nil slice, the decoder is called only on a non-empty string, and
  its error is dropped.\<close>

definition decodeList :: "'f env \<Rightarrow> string \<Rightarrow> string slice" where
  "decodeList e js = (if js \<noteq> '''' then fst (Unmarshal e js NilSlice) else NilSlice)"

definition hydrate :: "'f env \<Rightarrow> 'f row \<Rightarrow> 'f Recipe" where
  "hydrate e r =
     (scanned r)\<lparr>Ingredients := decodeList e (ingredientsJSON r),
                 Instructions := decodeList e (instructionsJSON r)\<rparr>"

text \<open>The loop \<^verbatim>\<open>for rows.Next()\<close> of \<^verbatim>\<open>searchRecipes\<close> and of \<^verbatim>\<open>mcpSearchRecipes\<close>
  (the two are the same text).\<close>

fun scanRows :: "'f env \<Rightarrow> 'f row list \<Rightarrow> 'f Recipe list \<Rightarrow> 'f Recipe list" where
  "scanRows e [] recipes = recipes"
| "scanRows e (r # rows) recipes =
     (if scanErr r then scanRows e rows recipes
      else scanRows e rows (recipes @ [hydrate e r]))"

text \<open>The same loop in \<^verbatim>\<open>searchRecipesMCP\<close>, the tool surface of the third entry point
  (\<^verbatim>\<open>unnamed/part_000\<close>): the result of \<^verbatim>\<open>rows.Scan\<close> is not looked at.\<close>

fun searchRecipesMCP_rows :: "'f env \<Rightarrow> 'f row list \<Rightarrow> 'f Recipe list \<Rightarrow> 'f Recipe list" where
  "searchRecipesMCP_rows e [] recipes = recipes"
| "searchRecipesMCP_rows e (r # rows) recipes =
     searchRecipesMCP_rows e rows (recipes @ [hydrate e r])"

section \<open>The two handlers\<close>

text \<open>The store is the parameter \<open>db\<close>: the rows \<^verbatim>\<open>db.Query\<close> yields for a query and its
  arguments, or \<open>None\<close> when it returns an error.\<close>

type_synonym 'f store = "string \<Rightarrow> 'f iface list \<Rightarrow> 'f row list option"

datatype 'f response =
    StatusInternalServerError
  | StatusOK (recipes: "'f Recipe list") (count: nat) (diet_plan: "'f DietPlan option")

definition searchRecipes :: "'f env \<Rightarrow> 'f store \<Rightarrow> params \<Rightarrow> 'f response" where
  "searchRecipes e db c =
     (case db (fst (searchRecipesSQL e c)) (snd (searchRecipesSQL e c)) of
        None \<Rightarrow> StatusInternalServerError
      | Some rows \<Rightarrow>
          (let recipes = scanRows e rows [] in
           StatusOK recipes (length recipes)
             (if Query c ''diet'' \<noteq> '''' then dietPlans (Query c ''diet'') else None)))"

datatype 'f toolResult =
    ErrorSearchingRecipes
  | RecipesAndCount "'f Recipe list" nat

definition mcpSearchRecipes :: "'f env \<Rightarrow> 'f store \<Rightarrow> 'f arguments \<Rightarrow> 'f toolResult" where
  "mcpSearchRecipes e db args =
     (case db (fst (mcpSearchRecipesSQL e args)) (snd (mcpSearchRecipesSQL e args)) of
        None \<Rightarrow> ErrorSearchingRecipes
      | Some rows \<Rightarrow>
          (let recipes = scanRows e rows [] in RecipesAndCount recipes (length recipes)))"

section \<open>A concrete runtime for the examples\<close>

text \<open>
  The examples below need one runtime to compute with. Its \<open>ParseFloat\<close> reads a plain
  decimal integer as that number and rejects everything else; on the strings the examples
  use (\<^verbatim>\<open>abc\<close>, which \<^verbatim>\<open>strconv.ParseFloat\<close> rejects, and short digit strings, which it
  reads as that number) it agrees with the library. Its \<open>Unmarshal\<close> reports an error and
  leaves the target as it was, as \<^verbatim>\<open>json.Unmarshal\<close> does on text that is not JSON. Its
  range loops visit the entries in the order of the source literal. The general theorems
  hold for every runtime.
\<close>

definition exampleEnv :: "int env" where
  "exampleEnv =
     \<lparr>ParseFloat = Atoi, Unmarshal = (\<lambda>data target. (target, True)),
      rangePlan = id, rangeFilters = id\<rparr>"

text \<open>A second one that differs only in visiting every map in the opposite order.\<close>

definition reversedEnv :: "int env" where
  "reversedEnv = exampleEnv\<lparr>rangePlan := rev, rangeFilters := rev\<rparr>"

text \<open>Two rows for the examples: one that \<^verbatim>\<open>Scan\<close> read in full, with both
  serialized lists empty, and one on which \<^verbatim>\<open>Scan\<close> stopped with an error after the
  first column.\<close>

definition zeroRecipe :: "int Recipe" where
  "zeroRecipe =
     \<lparr>ID = 0, Name = '''', Description = '''', Image = '''',
      PrepTimeMinutes = None, CookTimeMinutes = None, TotalTimeMinutes = None,
      Servings = None, Rating = None, Ingredients = NilSlice, Instructions = NilSlice,
      Calories = None, Protein = None, Fat = None, Carbs = None, Fiber = None,
      Sodium = None\<rparr>"

definition goodRow :: "int row" where
  "goodRow =
     \<lparr>scanned = zeroRecipe\<lparr>ID := 1, Name := ''Dal'', Calories := Some 300\<rparr>,
      ingredientsJSON = '''', instructionsJSON = '''', scanErr = False\<rparr>"

definition failedRow :: "int row" where
  "failedRow =
     \<lparr>scanned = zeroRecipe\<lparr>ID := 2\<rparr>,
      ingredientsJSON = '''', instructionsJSON = '''', scanErr = True\<rparr>"

text \<open>A third row, which \<^verbatim>\<open>Scan\<close> read in full and whose serialized ingredients are
  not JSON.\<close>

definition garbledRow :: "int row" where
  "garbledRow =
     \<lparr>scanned = zeroRecipe\<lparr>ID := 3, Name := ''Pho''\<rparr>,
      ingredientsJSON = ''[oops'', instructionsJSON = '''', scanErr = False\<rparr>"

text \<open>Whether a string starts, or ends, with a white-space rune.\<close>

definition startsWithSpace :: "string \<Rightarrow> bool" where
  "startsWithSpace s \<longleftrightarrow> leadingRune spaceRunes s \<noteq> 0"

definition endsWithSpace :: "string \<Rightarrow> bool" where
  "endsWithSpace s \<longleftrightarrow> leadingRune (map rev spaceRunes) (rev s) \<noteq> 0"

section \<open>Vocabulary of the properties\<close>

text \<open>The literal fragments the builders can append to the \<^verbatim>\<open>WHERE\<close> clause: the text
  search, the two ingredient tests and the twenty-two range tests.\<close>

definition fixedFragments :: "string list" where
  "fixedFragments =
     [ '' AND (name LIKE ? OR description LIKE ?)'',
       '' AND ingredients LIKE ?'',
       '' AND ingredients NOT LIKE ?'' ] @ map (\<lambda>(key, parser, fragment). fragment) numericParams"

text \<open>A query text up to its sort clause is fixed text when it is the \<^verbatim>\<open>SELECT\<close> followed
  by fragments of that list only.\<close>

definition fixedText :: "string \<Rightarrow> bool" where
  "fixedText q \<longleftrightarrow> (\<exists>fs. set fs \<subseteq> set fixedFragments \<and> q = selectRecipes @ concat fs)"

text \<open>The sort clauses: none, or \<^verbatim>\<open>ORDER BY\<close> a whitelisted column in either direction.\<close>

definition sortClauses :: "string list" where
  "sortClauses =
     [] # concat (map (\<lambda>column. [ '' ORDER BY '' @ column @ '' ASC'',
                                  '' ORDER BY '' @ column @ '' DESC'' ]) validSortColumns)"

text \<open>The shape of a REST request is what is left of it when the content of the caller's
  values is forgotten: how many tokens an ingredient list has, and whether a numeric
  parameter is present and parses.\<close>

definition tokenCount :: "string \<Rightarrow> nat" where
  "tokenCount v = (if v = '''' then 0 else Suc (count_list v CHR '',''))"

fun numericApplies :: "'f env \<Rightarrow> params \<Rightarrow> string \<times> numParser \<times> string \<Rightarrow> bool" where
  "numericApplies e c (key, parser, fragment) \<longleftrightarrow>
     Query c key \<noteq> '''' \<and> parseNumber e parser (Query c key) \<noteq> None"


text \<open>The same for the tool arguments: the number of fragments the value of a filter key
  stands for. A string counts when it is not empty (an ingredient list once for each token),
  a number counts for the numeric keys, and everything else counts for nothing.\<close>

definition fragmentCount :: "'f arguments \<Rightarrow> string \<Rightarrow> nat" where
  "fragmentCount args key =
     (case args key of
        Some (IString str) \<Rightarrow>
          if key = ''include_ingredients'' \<or> key = ''exclude_ingredients''
          then tokenCount str
          else if str = '''' then 0 else 1
      | Some (IFloat64 num) \<Rightarrow>
          if key = ''search'' \<or> key = ''include_ingredients'' \<or> key = ''exclude_ingredients''
          then 0 else 1
      | _ \<Rightarrow> 0)"


text \<open>What one entry of a preset's filter map appends: the text and the arguments.\<close>

definition emits :: "string \<times> 'f iface \<Rightarrow> 'f sql" where
  "emits entry = dietFilter entry ('''', [])"

text \<open>The pieces of an ingredient list as the loops see them: none for the empty string
  (the loops are guarded by a test for it), otherwise what \<^verbatim>\<open>strings.Split\<close> returns.\<close>

definition tokens :: "string \<Rightarrow> string list" where
  "tokens v = (if v = '''' then [] else Split v CHR '','')"

text \<open>One copy of a fragment for each piece, and for each piece the argument that is the
  piece trimmed and wrapped in \<^verbatim>\<open>%\<close>.\<close>

definition likeBlock :: "string \<Rightarrow> string list \<Rightarrow> 'f sql" where
  "likeBlock fragment ts =
     (concat (map (\<lambda>t. fragment) ts), map (\<lambda>t. IString (''%'' @ TrimSpace t @ ''%'')) ts)"


text \<open>The characters that occur in the text the builders can emit: those of the
  \<^verbatim>\<open>SELECT\<close>, of the fragments, of the sort clauses and of the two row caps.\<close>

definition queryAlphabet :: "char list" where
  "queryAlphabet =
     remdups (selectRecipes @ concat fixedFragments @ concat sortClauses
              @ '' LIMIT 100'' @ '' LIMIT 20'')"


text \<open>The blocks a query is made of. A block is the text and the arguments one step of a
  builder appends. The blocks of a preset are those of the entries of its filter map, in the
  order the loop of \<^verbatim>\<open>applyDietFilters\<close> visits them; the blocks of the tool surface are
  those of the entries of its filter map in a given order; the caller's filters of the REST
  surface are the steps of \<^verbatim>\<open>searchRecipes\<close> between the preset and the sort clause.\<close>

definition presetBlocks :: "'f env \<Rightarrow> string \<Rightarrow> 'f sql list" where
  "presetBlocks e diet =
     (if diet \<noteq> '''' then
        (case dietPlans diet of
           Some plan \<Rightarrow> map emits (rangePlan e (Filters plan))
         | None \<Rightarrow> [])
      else [])"

definition toolBlocks :: "'f env \<Rightarrow> 'f arguments \<Rightarrow> (string \<times> string) list \<Rightarrow> 'f sql list" where
  "toolBlocks e args entries = map (\<lambda>entry. mcpFilter e args entry ('''', [])) entries"

definition callerFilters :: "'f env \<Rightarrow> params \<Rightarrow> 'f sql \<Rightarrow> 'f sql" where
  "callerFilters e c s =
     fold (numericFilter e c) numericParams
       (ingredientFilter '' AND ingredients NOT LIKE ?'' (Query c ''exclude_ingredients'')
         (ingredientFilter '' AND ingredients LIKE ?'' (Query c ''include_ingredients'')
           (textSearch (Query c ''search'') s)))"

definition joinBlocks :: "'f sql \<Rightarrow> 'f sql list \<Rightarrow> 'f sql" where
  "joinBlocks s blocks = (fst s @ concat (map fst blocks), snd s @ concat (map snd blocks))"

section \<open>Properties\<close>

subsection \<open>Auxiliary facts\<close>

lemmas eval_defs =
  searchRecipesSQL_def searchRecipesWhere_def mcpSearchRecipesSQL_def
  mcpSearchRecipesWhere_def exampleEnv_def reversedEnv_def Query_def DefaultQuery_def
  stringArg_def withDiet_def dietPlans_def dietPlanTable_def applyDietFilters_def
  dietRangeCases_def ingredientFilter_def TrimSpace_def leadingRune_def spaceRunes_def
  numericParams_def mcpFilters_def orderBy_def validSortColumns_def selectRecipes_def
  Atoi_def isDigit_def

lemma appendLike_eq:
  "appendLike fragment ts (q, a) =
     (q @ concat (replicate (length ts) fragment),
      a @ map (\<lambda>t. IString (''%'' @ t @ ''%'')) ts)"
  by (induction ts arbitrary: q a) simp_all

lemma length_Split: "length (Split s sep) = Suc (count_list s sep)"
  by (induction s) (auto split: list.splits)

lemma scanRows_eq:
  "scanRows e rows acc = acc @ map (hydrate e) (filter (\<lambda>r. \<not> scanErr r) rows)"
  by (induction rows arbitrary: acc) simp_all

lemma searchRecipesMCP_rows_eq:
  "searchRecipesMCP_rows e rows acc = acc @ map (hydrate e) rows"
  by (induction rows arbitrary: acc) simp_all

subsection \<open>Unparseable numeric values\<close>

text \<open>
  Claim C3: on every adapter surface a numeric filter value that fails numeric parsing is
  ignored, adding no predicate fragment and no argument.

  The REST surface does so. The tool surface does not: for the arguments
  \<^verbatim>\<open>{"min_calories": "abc"}\<close> \<^verbatim>\<open>mcpSearchRecipes\<close> appends the fragment
  \<^verbatim>\<open>AND calories >= ?\<close> before it parses the value, and then appends no argument, so the
  query has a placeholder with nothing bound to it.
\<close>

theorem mcpSearchRecipes_unparseable_keeps_fragment:
  "searchRecipesSQL exampleEnv [''min_calories'' \<mapsto> ''abc''] =
     (selectRecipes @ '' ORDER BY id ASC LIMIT 100'', [])
   \<and> mcpSearchRecipesSQL exampleEnv [''min_calories'' \<mapsto> IString ''abc''] =
     (selectRecipes @ '' AND calories >= ? ORDER BY id ASC LIMIT 20'', [])"
  by (simp add: eval_defs)


subsection \<open>Facts about \<^verbatim>\<open>TrimSpace\<close> and the ingredient loops\<close>

lemma find_SomeD: "find P xs = Some x \<Longrightarrow> P x \<and> x \<in> set xs"
  by (induction xs) (auto split: if_splits)

lemma leadingRune_zero_iff:
  assumes "[] \<notin> set rs"
  shows "leadingRune rs s = 0 \<longleftrightarrow> (\<forall>r\<in>set rs. take (length r) s \<noteq> r)"
proof
  assume z: "leadingRune rs s = 0"
  show "\<forall>r\<in>set rs. take (length r) s \<noteq> r"
  proof (cases "find (\<lambda>r. take (length r) s = r) rs")
    case None
    then show ?thesis by (simp add: find_None_iff)
  next
    case (Some r)
    with z have "length r = 0" by (simp add: leadingRune_def)
    moreover from Some have "r \<in> set rs" using find_SomeD by fastforce
    ultimately show ?thesis using assms by simp
  qed
next
  assume n: "\<forall>r\<in>set rs. take (length r) s \<noteq> r"
  then have "find (\<lambda>r. take (length r) s = r) rs = None" by (simp add: find_None_iff)
  then show "leadingRune rs s = 0" by (simp add: leadingRune_def)
qed

lemma leadingRune_Nil: "leadingRune rs [] = 0"
proof (cases "find (\<lambda>r. take (length r) [] = r) rs")
  case None
  then show ?thesis by (simp add: leadingRune_def)
next
  case (Some r)
  then have "take (length r) [] = r" using find_SomeD by fastforce
  then have "r = []" by simp
  with Some show ?thesis by (simp add: leadingRune_def)
qed

lemma leadingRune_stripRunes: "leadingRune rs (stripRunes rs s) = 0"
proof (induction rs s rule: stripRunes.induct)
  case (1 rs)
  show ?case by (simp add: leadingRune_Nil)
next
  case (2 rs c cs)
  show ?case
  proof (cases "leadingRune rs (c # cs) = 0")
    case True
    then show ?thesis by simp
  next
    case False
    with 2 show ?thesis by simp
  qed
qed

lemma stripRunes_suffix: "\<exists>p. s = p @ stripRunes rs s"
proof (induction rs s rule: stripRunes.induct)
  case (1 rs)
  show ?case by simp
next
  case (2 rs c cs)
  define n where "n = leadingRune rs (c # cs)"
  show ?case
  proof (cases "n = 0")
    case True
    then have "stripRunes rs (c # cs) = c # cs" by (simp add: n_def)
    then show ?thesis by simp
  next
    case False
    then have s: "stripRunes rs (c # cs) = stripRunes rs (drop (n - 1) cs)" by (simp add: n_def)
    from 2 False obtain p where p: "drop (n - 1) cs = p @ stripRunes rs (drop (n - 1) cs)"
      unfolding n_def by blast
    have "c # cs = (c # take (n - 1) cs) @ drop (n - 1) cs" by simp
    also have "\<dots> = (c # take (n - 1) cs @ p) @ stripRunes rs (drop (n - 1) cs)"
      using p by simp
    finally show ?thesis unfolding s by blast
  qed
qed


lemma spaceRunes_nonempty: "[] \<notin> set spaceRunes"
  by (simp add: spaceRunes_def)

lemma take_prefix_app: "take (length r) x = r \<Longrightarrow> take (length r) (x @ y) = r"
proof -
  assume a: "take (length r) x = r"
  have "length (take (length r) x) = length r" by (simp only: a)
  then have "length r \<le> length x" by simp
  then show ?thesis using a by simp
qed

lemma TrimSpace_trimmed: "\<not> startsWithSpace (TrimSpace s) \<and> \<not> endsWithSpace (TrimSpace s)"
proof -
  define L where "L = stripRunes spaceRunes s"
  define T where "T = stripRunes (map rev spaceRunes) (rev L)"
  have TS: "TrimSpace s = rev T" by (simp add: TrimSpace_def T_def L_def)
  have "leadingRune (map rev spaceRunes) T = 0"
    unfolding T_def by (rule leadingRune_stripRunes)
  then have e: "\<not> endsWithSpace (TrimSpace s)"
    by (simp add: endsWithSpace_def TS)
  obtain p where p: "rev L = p @ T" unfolding T_def using stripRunes_suffix by blast
  have "L = rev (rev L)" by simp
  also have "\<dots> = rev T @ rev p" unfolding p by simp
  finally have Leq: "L = rev T @ rev p" .
  have "leadingRune spaceRunes L = 0" unfolding L_def by (rule leadingRune_stripRunes)
  then have zero: "\<forall>r\<in>set spaceRunes. take (length r) L \<noteq> r"
    using leadingRune_zero_iff[OF spaceRunes_nonempty] by blast
  have "\<forall>r\<in>set spaceRunes. take (length r) (rev T) \<noteq> r"
  proof
    fix r assume r: "r \<in> set spaceRunes"
    show "take (length r) (rev T) \<noteq> r"
    proof
      assume "take (length r) (rev T) = r"
      then have "take (length r) (rev T @ rev p) = r" by (rule take_prefix_app)
      with zero r Leq show False by simp
    qed
  qed
  then have "leadingRune spaceRunes (rev T) = 0"
    using leadingRune_zero_iff[OF spaceRunes_nonempty] by blast
  then have "\<not> startsWithSpace (TrimSpace s)"
    by (simp add: startsWithSpace_def TS)
  with e show ?thesis by simp
qed



subsection \<open>Loops that only append\<close>

lemma fold_appends_blocks:
  assumes "\<And>x q a. g x (q, a) = (q @ fst (g x ([], [])), a @ snd (g x ([], [])))"
  shows "fold g xs (q, a) =
     (q @ concat (map (\<lambda>x. fst (g x ([], []))) xs),
      a @ concat (map (\<lambda>x. snd (g x ([], []))) xs))"
proof (induction xs arbitrary: q a)
  case Nil
  show ?case by simp
next
  case (Cons x xs)
  have "fold g (x # xs) (q, a) = fold g xs (g x (q, a))" by simp
  also have "\<dots> = fold g xs (q @ fst (g x ([], [])), a @ snd (g x ([], [])))"
    by (simp only: assms[of x q a])
  also have "\<dots> = (q @ concat (map (\<lambda>x. fst (g x ([], []))) (x # xs)),
      a @ concat (map (\<lambda>x. snd (g x ([], []))) (x # xs)))"
    by (simp only: Cons.IH) simp
  finally show ?case .
qed

lemma fold_appends:
  assumes "\<And>x q a. g x (q, a) = (q @ fst (g x ([], [])), a @ snd (g x ([], [])))"
  shows "fold g xs (q, a) = (q @ fst (fold g xs ([], [])), a @ snd (fold g xs ([], [])))"
proof -
  have "fold g xs ([], []) =
     (concat (map (\<lambda>x. fst (g x ([], []))) xs), concat (map (\<lambda>x. snd (g x ([], []))) xs))"
    using fold_appends_blocks[where g = g and xs = xs and q = "[]" and a = "[]", OF assms] by simp
  then show ?thesis
    using fold_appends_blocks[where g = g and xs = xs and q = q and a = a, OF assms] by simp
qed

lemma map_const_replicate: "concat (replicate (length ts) f) = concat (map (\<lambda>t. f) ts)"
  by (simp add: map_replicate_const)

lemma appendLike_block:
  "appendLike fragment (map TrimSpace ts) (q, a) =
     (q @ fst (likeBlock fragment ts), a @ snd (likeBlock fragment ts))"
  by (simp add: appendLike_eq likeBlock_def map_replicate_const comp_def)

lemma ingredientFilter_block:
  "ingredientFilter fragment v (q, a) =
     (q @ fst (likeBlock fragment (tokens v)), a @ snd (likeBlock fragment (tokens v)))"
proof (cases "v = []")
  case True
  then show ?thesis by (simp add: ingredientFilter_def tokens_def likeBlock_def)
next
  case False
  then show ?thesis
    by (simp only: ingredientFilter_def tokens_def appendLike_block if_True if_False not_False_eq_True)
qed

lemma mcpFilter_ingredients_block:
  assumes "key = ''include_ingredients'' \<or> key = ''exclude_ingredients''"
  shows "mcpFilter e args (key, condition) (q, a) =
     (q @ fst (likeBlock ('' '' @ condition) (tokens (stringArg args key))),
      a @ snd (likeBlock ('' '' @ condition) (tokens (stringArg args key))))"
proof -
  have k: "key \<noteq> ''search''" using assms by auto
  show ?thesis
  proof (cases "args key")
    case None
    then show ?thesis by (simp add: stringArg_def tokens_def likeBlock_def)
  next
    case (Some val)
    show ?thesis
    proof (cases val)
      case (IString str)
      show ?thesis
      proof (cases "str = []")
        case True
        then show ?thesis using Some IString k assms
          by (simp add: stringArg_def tokens_def likeBlock_def)
      next
        case False
        have "mcpFilter e args (key, condition) (q, a) =
            appendLike ('' '' @ condition) (map TrimSpace (Split str CHR '','')) (q, a)"
          using Some IString k assms False by simp
        also have "\<dots> = (q @ fst (likeBlock ('' '' @ condition) (Split str CHR '','')),
            a @ snd (likeBlock ('' '' @ condition) (Split str CHR '','')))"
          by (rule appendLike_block)
        finally show ?thesis using Some IString False by (simp add: stringArg_def tokens_def)
      qed
    qed (use Some k assms in \<open>simp_all add: stringArg_def tokens_def likeBlock_def\<close>)
  qed
qed

lemma mcpFilter_appends:
  "mcpFilter e args kc (q, a) =
     (q @ fst (mcpFilter e args kc ([], [])), a @ snd (mcpFilter e args kc ([], [])))"
proof (cases kc)
  case (Pair key condition)
  show ?thesis
  proof (cases "key = ''include_ingredients'' \<or> key = ''exclude_ingredients''")
    case True
    have 1: "mcpFilter e args (key, condition) (q, a) =
        (q @ fst (likeBlock ('' '' @ condition) (tokens (stringArg args key)) :: 'a sql),
         a @ snd (likeBlock ('' '' @ condition) (tokens (stringArg args key)) :: 'a sql))"
      using True by (rule mcpFilter_ingredients_block)
    have 2: "mcpFilter e args (key, condition) ([], []) =
        ([] @ fst (likeBlock ('' '' @ condition) (tokens (stringArg args key)) :: 'a sql),
         [] @ snd (likeBlock ('' '' @ condition) (tokens (stringArg args key)) :: 'a sql))"
      using True by (rule mcpFilter_ingredients_block)
    show ?thesis unfolding Pair 1 2 by simp
  next
    case False
    then show ?thesis unfolding Pair
      by (simp split: option.splits iface.splits)
  qed
qed

lemma numericFilter_appends:
  "numericFilter e c p (q, a) =
     (q @ fst (numericFilter e c p ([], [])), a @ snd (numericFilter e c p ([], [])))"
  by (cases p) (simp split: option.splits)

lemma rangeFilters_mset: "rangeVisitsAll e \<Longrightarrow> mset (rangeFilters e m) = mset m"
  by (simp add: rangeVisitsAll_def)

lemma rangePlan_mset: "rangeVisitsAll e \<Longrightarrow> mset (rangePlan e m) = mset m"
  by (simp add: rangeVisitsAll_def)

lemma rangeFilters_set: "rangeVisitsAll e \<Longrightarrow> set (rangeFilters e m) = set m"
  using rangeFilters_mset[of e m] by (rule mset_eq_setD)

lemma rangePlan_set: "rangeVisitsAll e \<Longrightarrow> set (rangePlan e m) = set m"
  using rangePlan_mset[of e m] by (rule mset_eq_setD)

lemma rangeFilters_distinct_keys:
  assumes "rangeVisitsAll e"
  shows "distinct (map fst (rangeFilters e mcpFilters))"
proof -
  have "mset (map fst (rangeFilters e mcpFilters)) = mset (map fst mcpFilters)"
    using rangeFilters_mset[OF assms, of mcpFilters] by (metis mset_map)
  moreover have "distinct (map fst mcpFilters)" by (simp add: mcpFilters_def)
  ultimately show ?thesis using mset_eq_imp_distinct_iff by blast
qed

lemma mcpFilters_visit:
  assumes "rangeVisitsAll e" "(key, condition) \<in> set mcpFilters"
  shows "\<exists>pre post. rangeFilters e mcpFilters = pre @ (key, condition) # post
           \<and> key \<notin> fst ` set (pre @ post)"
proof -
  have "(key, condition) \<in> set (rangeFilters e mcpFilters)"
    using assms rangeFilters_set by blast
  then obtain pre post where s: "rangeFilters e mcpFilters = pre @ (key, condition) # post"
    by (meson split_list)
  have "distinct (map fst (pre @ (key, condition) # post))"
    using rangeFilters_distinct_keys[OF assms(1)] unfolding s .
  then have "key \<notin> fst ` set (pre @ post)" by auto
  with s show ?thesis by blast
qed

lemma mcpSearchRecipesWhere_visit:
  assumes "rangeFilters e mcpFilters = pre @ (key, condition) # post"
    and "key = ''include_ingredients'' \<or> key = ''exclude_ingredients''"
  shows "mcpSearchRecipesWhere e args =
     (fst (fold (mcpFilter e args) pre (withDiet e (stringArg args ''diet'') (selectRecipes, [])))
        @ fst (likeBlock ('' '' @ condition) (tokens (stringArg args key)) :: 'a sql)
        @ fst (fold (mcpFilter e args) post ([], [])),
      snd (fold (mcpFilter e args) pre (withDiet e (stringArg args ''diet'') (selectRecipes, [])))
        @ snd (likeBlock ('' '' @ condition) (tokens (stringArg args key)) :: 'a sql)
        @ snd (fold (mcpFilter e args) post ([], [])))"
proof -
  define S where "S = fold (mcpFilter e args) pre (withDiet e (stringArg args ''diet'') (selectRecipes, []))"
  define I :: "'a sql" where "I = likeBlock ('' '' @ condition) (tokens (stringArg args key))"
  have "mcpSearchRecipesWhere e args =
      fold (mcpFilter e args) post (mcpFilter e args (key, condition) S)"
    by (simp add: mcpSearchRecipesWhere_def assms(1) S_def)
  also have "mcpFilter e args (key, condition) S = (fst S @ fst I, snd S @ snd I)"
    using mcpFilter_ingredients_block[OF assms(2), of e args condition "fst S" "snd S"]
    by (simp add: I_def)
  also have "fold (mcpFilter e args) post (fst S @ fst I, snd S @ snd I) =
      ((fst S @ fst I) @ fst (fold (mcpFilter e args) post ([], [])),
       (snd S @ snd I) @ snd (fold (mcpFilter e args) post ([], [])))"
    by (rule fold_appends) (rule mcpFilter_appends)
  finally show ?thesis by (simp add: S_def I_def)
qed

lemma searchRecipesWhere_blocks:
  "searchRecipesWhere e c =
     (fst (textSearch (Query c ''search'') (withDiet e (Query c ''diet'') (selectRecipes, [])))
        @ fst (likeBlock '' AND ingredients LIKE ?'' (tokens (Query c ''include_ingredients'')) :: 'a sql)
        @ fst (likeBlock '' AND ingredients NOT LIKE ?'' (tokens (Query c ''exclude_ingredients'')) :: 'a sql)
        @ fst (fold (numericFilter e c) numericParams ([], [])),
      snd (textSearch (Query c ''search'') (withDiet e (Query c ''diet'') (selectRecipes, [])))
        @ snd (likeBlock '' AND ingredients LIKE ?'' (tokens (Query c ''include_ingredients'')) :: 'a sql)
        @ snd (likeBlock '' AND ingredients NOT LIKE ?'' (tokens (Query c ''exclude_ingredients'')) :: 'a sql)
        @ snd (fold (numericFilter e c) numericParams ([], [])))"
proof -
  define B where "B = textSearch (Query c ''search'') (withDiet e (Query c ''diet'') (selectRecipes, []))"
  define I :: "'a sql" where
    "I = likeBlock '' AND ingredients LIKE ?'' (tokens (Query c ''include_ingredients''))"
  define X :: "'a sql" where
    "X = likeBlock '' AND ingredients NOT LIKE ?'' (tokens (Query c ''exclude_ingredients''))"
  have 1: "ingredientFilter '' AND ingredients LIKE ?'' (Query c ''include_ingredients'') B =
      (fst B @ fst I, snd B @ snd I)"
    using ingredientFilter_block[of "'' AND ingredients LIKE ?''" "Query c ''include_ingredients''"
        "fst B" "snd B"]
    by (simp add: I_def)
  have 2: "ingredientFilter '' AND ingredients NOT LIKE ?'' (Query c ''exclude_ingredients'')
        (fst B @ fst I, snd B @ snd I) =
      ((fst B @ fst I) @ fst X, (snd B @ snd I) @ snd X)"
    unfolding X_def by (rule ingredientFilter_block)
  have 3: "fold (numericFilter e c) numericParams ((fst B @ fst I) @ fst X, (snd B @ snd I) @ snd X) =
      (((fst B @ fst I) @ fst X) @ fst (fold (numericFilter e c) numericParams ([], [])),
       ((snd B @ snd I) @ snd X) @ snd (fold (numericFilter e c) numericParams ([], [])))"
    by (rule fold_appends) (rule numericFilter_appends)
  have "searchRecipesWhere e c =
      fold (numericFilter e c) numericParams
        (ingredientFilter '' AND ingredients NOT LIKE ?'' (Query c ''exclude_ingredients'')
          (ingredientFilter '' AND ingredients LIKE ?'' (Query c ''include_ingredients'') B))"
    by (simp only: searchRecipesWhere_def B_def)
  also have "\<dots> = (((fst B @ fst I) @ fst X) @ fst (fold (numericFilter e c) numericParams ([], [])),
       ((snd B @ snd I) @ snd X) @ snd (fold (numericFilter e c) numericParams ([], [])))"
    by (simp only: 1 2 3)
  finally show ?thesis by (simp add: B_def I_def X_def)
qed

lemma length_tokens: "length (tokens v) = (if v = [] then 0 else Suc (count_list v CHR '',''))"
  by (simp add: tokens_def length_Split)



lemma rangeVisitsAll_exampleEnv: "rangeVisitsAll exampleEnv"
  by (simp add: rangeVisitsAll_def exampleEnv_def)

subsection \<open>A preset together with a caller filter\<close>

text \<open>
  Claim C4: a REST search with the preset \<^verbatim>\<open>vegan\<close> and \<^verbatim>\<open>include_ingredients=tofu\<close>
  has ten \<^verbatim>\<open>ingredients NOT LIKE ?\<close> fragments with the vegan tokens as arguments, one
  \<^verbatim>\<open>ingredients LIKE ?\<close> fragment with the argument \<^verbatim>\<open>%tofu%\<close>, is ordered by fiber
  descending and is capped at 100 rows.

  The fragments, the arguments and the cap are as the claim says. The order is not: the
  preset's \<^verbatim>\<open>sort_by\<close> and \<^verbatim>\<open>sort_order\<close> entries have no case in \<^verbatim>\<open>applyDietFilters\<close>, so
  the request's own defaults apply and the query is ordered by \<^verbatim>\<open>id\<close> ascending.
\<close>

theorem searchRecipes_vegan_tofu_ordered_by_id:
  "searchRecipesSQL exampleEnv [''diet'' \<mapsto> ''vegan'', ''include_ingredients'' \<mapsto> ''tofu''] =
     (selectRecipes @ '' AND ingredients NOT LIKE ? AND ingredients NOT LIKE ? AND ingredients NOT LIKE ? AND ingredients NOT LIKE ? AND ingredients NOT LIKE ? AND ingredients NOT LIKE ? AND ingredients NOT LIKE ? AND ingredients NOT LIKE ? AND ingredients NOT LIKE ? AND ingredients NOT LIKE ? AND ingredients LIKE ? ORDER BY id ASC LIMIT 100'',
      [IString ''%meat%'', IString ''%chicken%'', IString ''%beef%'', IString ''%pork%'',
       IString ''%fish%'', IString ''%dairy%'', IString ''%milk%'', IString ''%cheese%'',
       IString ''%egg%'', IString ''%butter%'', IString ''%tofu%''])"
  by (simp add: eval_defs)

subsection \<open>Rows that fail to scan\<close>

text \<open>
  Claim C8: on every search surface a row whose scan fails is skipped, and only that row.

  \<^verbatim>\<open>searchRecipes\<close> and \<^verbatim>\<open>mcpSearchRecipes\<close> do so. \<^verbatim>\<open>searchRecipesMCP\<close> never looks at
  the error of \<^verbatim>\<open>rows.Scan\<close>: of a result set with one good row and one row whose scan
  failed it returns both, the second with whatever the scan had stored before it stopped.
\<close>

theorem searchRecipesMCP_returns_failed_row:
  "searchRecipesMCP_rows exampleEnv [goodRow, failedRow] [] =
     [hydrate exampleEnv goodRow, hydrate exampleEnv failedRow]
   \<and> scanRows exampleEnv [goodRow, failedRow] [] = [hydrate exampleEnv goodRow]"
  by (simp add: goodRow_def failedRow_def)



subsection \<open>Hydration\<close>

text \<open>
  Claim C5: hydrating a row is deterministic and lenient; a row whose serialized ingredients
  or instructions are empty or fail to decode yields a Recipe whose field is an empty list,
  not null and not an error, and the row is still returned.

  The row is returned, but its field is not an empty list. The source declares the Recipe
  with \<^verbatim>\<open>var\<close>, decodes only a non-empty string and drops the decoder's error: the field
  of \<open>goodRow\<close>, whose serialized ingredients are empty, and the field of \<open>garbledRow\<close>,
  whose serialized ingredients the decoder rejects without storing anything, are both the nil
  slice, which the response carries as \<^verbatim>\<open>null\<close> and not as the empty array.
\<close>


theorem hydrate_empty_or_undecodable_is_nil:
  "ingredientsJSON goodRow = ''''
   \<and> Ingredients (hydrate exampleEnv goodRow) = NilSlice
   \<and> Ingredients (hydrate exampleEnv goodRow) \<noteq> Slice []
   \<and> Marshal (Ingredients (hydrate exampleEnv goodRow)) = JNull
   \<and> Marshal (Slice []) = JArray []
   \<and> Unmarshal exampleEnv (ingredientsJSON garbledRow) NilSlice = (NilSlice, True)
   \<and> Ingredients (hydrate exampleEnv garbledRow) = NilSlice
   \<and> Marshal (Ingredients (hydrate exampleEnv garbledRow)) = JNull
   \<and> scanRows exampleEnv [goodRow, garbledRow] [] =
       [hydrate exampleEnv goodRow, hydrate exampleEnv garbledRow]"
  by (simp add: goodRow_def garbledRow_def hydrate_def decodeList_def exampleEnv_def)


text \<open>
  Claim C5 as amended: the recipes returned are the hydrations of the rows that scanned, in
  their order, each a function of its own row and of the decoder; a request whose query the
  store answers never fails on a row, whatever the decoder reports, and counts those rows. A
  list field whose serialized text is empty is the nil slice, written \<^verbatim>\<open>null\<close>. A list
  field whose text is not empty is what \<^verbatim>\<open>json.Unmarshal\<close> stored in the nil field: when
  the decoder reports an error and has stored nothing, the field is again the nil slice,
  written \<^verbatim>\<open>null\<close>. All other fields are as scanned, and the result does not depend on
  the errors the decoder reports.
\<close>


theorem hydrate_lenient:
  "scanRows e rows [] = map (hydrate e) (filter (\<lambda>r. \<not> scanErr r) rows)
   \<and> (db (fst (searchRecipesSQL e c)) (snd (searchRecipesSQL e c)) = Some rows \<longrightarrow>
        (\<exists>plan. searchRecipes e db c =
           StatusOK (map (hydrate e) (filter (\<lambda>r. \<not> scanErr r) rows))
             (length (filter (\<lambda>r. \<not> scanErr r) rows)) plan))
   \<and> (db (fst (mcpSearchRecipesSQL e args)) (snd (mcpSearchRecipesSQL e args)) = Some rows \<longrightarrow>
        mcpSearchRecipes e db args =
          RecipesAndCount (map (hydrate e) (filter (\<lambda>r. \<not> scanErr r) rows))
            (length (filter (\<lambda>r. \<not> scanErr r) rows)))
   \<and> (ingredientsJSON r = '''' \<longrightarrow>
        Ingredients (hydrate e r) = NilSlice \<and> Marshal (Ingredients (hydrate e r)) = JNull)
   \<and> (instructionsJSON r = '''' \<longrightarrow>
        Instructions (hydrate e r) = NilSlice \<and> Marshal (Instructions (hydrate e r)) = JNull)
   \<and> (ingredientsJSON r \<noteq> '''' \<longrightarrow>
        Ingredients (hydrate e r) = fst (Unmarshal e (ingredientsJSON r) NilSlice))
   \<and> (instructionsJSON r \<noteq> '''' \<longrightarrow>
        Instructions (hydrate e r) = fst (Unmarshal e (instructionsJSON r) NilSlice))
   \<and> (Unmarshal e (ingredientsJSON r) NilSlice = (NilSlice, True) \<longrightarrow>
        Ingredients (hydrate e r) = NilSlice \<and> Marshal (Ingredients (hydrate e r)) = JNull)
   \<and> (Unmarshal e (instructionsJSON r) NilSlice = (NilSlice, True) \<longrightarrow>
        Instructions (hydrate e r) = NilSlice \<and> Marshal (Instructions (hydrate e r)) = JNull)
   \<and> (hydrate e r)\<lparr>Ingredients := NilSlice, Instructions := NilSlice\<rparr> =
       (scanned r)\<lparr>Ingredients := NilSlice, Instructions := NilSlice\<rparr>
   \<and> ((\<forall>js t. fst (Unmarshal e' js t) = fst (Unmarshal e js t)) \<longrightarrow>
        scanRows e' rows [] = scanRows e rows [])"
proof -
  have rows: "scanRows e rows [] = map (hydrate e) (filter (\<lambda>r. \<not> scanErr r) rows)"
    by (simp add: scanRows_eq)
  have rest: "db (fst (searchRecipesSQL e c)) (snd (searchRecipesSQL e c)) = Some rows \<longrightarrow>
        (\<exists>plan. searchRecipes e db c =
           StatusOK (map (hydrate e) (filter (\<lambda>r. \<not> scanErr r) rows))
             (length (filter (\<lambda>r. \<not> scanErr r) rows)) plan)"
    by (simp add: searchRecipes_def scanRows_eq Let_def)
  have tool: "db (fst (mcpSearchRecipesSQL e args)) (snd (mcpSearchRecipesSQL e args)) = Some rows \<longrightarrow>
        mcpSearchRecipes e db args =
          RecipesAndCount (map (hydrate e) (filter (\<lambda>r. \<not> scanErr r) rows))
            (length (filter (\<lambda>r. \<not> scanErr r) rows))"
    by (simp add: mcpSearchRecipes_def scanRows_eq Let_def)
  have e1: "ingredientsJSON r = '''' \<longrightarrow>
        Ingredients (hydrate e r) = NilSlice \<and> Marshal (Ingredients (hydrate e r)) = JNull"
    by (simp add: hydrate_def decodeList_def)
  have e2: "instructionsJSON r = '''' \<longrightarrow>
        Instructions (hydrate e r) = NilSlice \<and> Marshal (Instructions (hydrate e r)) = JNull"
    by (simp add: hydrate_def decodeList_def)
  have d1: "ingredientsJSON r \<noteq> '''' \<longrightarrow>
        Ingredients (hydrate e r) = fst (Unmarshal e (ingredientsJSON r) NilSlice)"
    by (simp add: hydrate_def decodeList_def)
  have d2: "instructionsJSON r \<noteq> '''' \<longrightarrow>
        Instructions (hydrate e r) = fst (Unmarshal e (instructionsJSON r) NilSlice)"
    by (simp add: hydrate_def decodeList_def)
  have f1: "Unmarshal e (ingredientsJSON r) NilSlice = (NilSlice, True) \<longrightarrow>
        Ingredients (hydrate e r) = NilSlice \<and> Marshal (Ingredients (hydrate e r)) = JNull"
    by (simp add: hydrate_def decodeList_def)
  have f2: "Unmarshal e (instructionsJSON r) NilSlice = (NilSlice, True) \<longrightarrow>
        Instructions (hydrate e r) = NilSlice \<and> Marshal (Instructions (hydrate e r)) = JNull"
    by (simp add: hydrate_def decodeList_def)
  have sc: "(hydrate e r)\<lparr>Ingredients := NilSlice, Instructions := NilSlice\<rparr> =
       (scanned r)\<lparr>Ingredients := NilSlice, Instructions := NilSlice\<rparr>"
    by (simp add: hydrate_def)
  have er: "(\<forall>js t. fst (Unmarshal e' js t) = fst (Unmarshal e js t)) \<longrightarrow>
        scanRows e' rows [] = scanRows e rows []"
  proof
    assume a: "\<forall>js t. fst (Unmarshal e' js t) = fst (Unmarshal e js t)"
    then have "\<And>r. hydrate e' r = hydrate e r" by (simp add: hydrate_def decodeList_def)
    then show "scanRows e' rows [] = scanRows e rows []" by (simp add: scanRows_eq)
  qed
  from rows rest tool e1 e2 d1 d2 f1 f2 sc er show ?thesis by (intro conjI)
qed

theorem hydrate_lenient_witness:
  "Unmarshal exampleEnv (ingredientsJSON garbledRow) NilSlice = (NilSlice, True)
   \<and> instructionsJSON garbledRow = ''''
   \<and> Marshal (Ingredients (hydrate exampleEnv garbledRow)) = JNull
   \<and> Marshal (Instructions (hydrate exampleEnv garbledRow)) = JNull
   \<and> ID (hydrate exampleEnv garbledRow) = 3
   \<and> (\<exists>plan. searchRecipes exampleEnv (\<lambda>query args. Some [goodRow, failedRow, garbledRow]) Map.empty =
         StatusOK [hydrate exampleEnv goodRow, hydrate exampleEnv garbledRow] 2 plan)
   \<and> mcpSearchRecipes exampleEnv (\<lambda>query args. Some [goodRow, failedRow, garbledRow]) Map.empty =
         RecipesAndCount [hydrate exampleEnv goodRow, hydrate exampleEnv garbledRow] 2
   \<and> scanRows (exampleEnv\<lparr>Unmarshal := \<lambda>data target. (target, False)\<rparr>)
         [goodRow, failedRow, garbledRow] [] =
       scanRows exampleEnv [goodRow, failedRow, garbledRow] []"
proof -
  note w = hydrate_lenient
    [where e = exampleEnv and e' = "exampleEnv\<lparr>Unmarshal := \<lambda>data target. (target, False)\<rparr>"
       and r = garbledRow and rows = "[goodRow, failedRow, garbledRow]"
       and db = "\<lambda>query args. Some [goodRow, failedRow, garbledRow]"
       and c = Map.empty and args = Map.empty]
  have h1: "Unmarshal exampleEnv (ingredientsJSON garbledRow) NilSlice = (NilSlice, True)"
    by (simp add: exampleEnv_def)
  have h2: "instructionsJSON garbledRow = ''''" by (simp add: garbledRow_def)
  have h3: "\<forall>js t. fst (Unmarshal (exampleEnv\<lparr>Unmarshal := \<lambda>data target. (target, False)\<rparr>) js t) =
      fst (Unmarshal exampleEnv js t)"
    by (simp add: exampleEnv_def)
  have f: "filter (\<lambda>r. \<not> scanErr r) [goodRow, failedRow, garbledRow] = [goodRow, garbledRow]"
    by (simp add: goodRow_def failedRow_def garbledRow_def)
  have c1: "Marshal (Ingredients (hydrate exampleEnv garbledRow)) = JNull"
    using w h1 by blast
  have c2: "Marshal (Instructions (hydrate exampleEnv garbledRow)) = JNull"
    using w h2 by blast
  have "(hydrate exampleEnv garbledRow)\<lparr>Ingredients := NilSlice, Instructions := NilSlice\<rparr> =
       (scanned garbledRow)\<lparr>Ingredients := NilSlice, Instructions := NilSlice\<rparr>"
    using w by blast
  then have "ID ((hydrate exampleEnv garbledRow)\<lparr>Ingredients := NilSlice, Instructions := NilSlice\<rparr>) =
       ID ((scanned garbledRow)\<lparr>Ingredients := NilSlice, Instructions := NilSlice\<rparr>)"
    by (rule arg_cong)
  then have c3: "ID (hydrate exampleEnv garbledRow) = 3"
    by (simp add: garbledRow_def zeroRecipe_def)
  have c4: "\<exists>plan. searchRecipes exampleEnv (\<lambda>query args. Some [goodRow, failedRow, garbledRow]) Map.empty =
         StatusOK [hydrate exampleEnv goodRow, hydrate exampleEnv garbledRow] 2 plan"
    using w[THEN conjunct2, THEN conjunct1, unfolded f] by (simp add: numeral_2_eq_2)
  have c5: "mcpSearchRecipes exampleEnv (\<lambda>query args. Some [goodRow, failedRow, garbledRow]) Map.empty =
         RecipesAndCount [hydrate exampleEnv goodRow, hydrate exampleEnv garbledRow] 2"
    using w[THEN conjunct2, THEN conjunct2, THEN conjunct1, unfolded f] by (simp add: numeral_2_eq_2)
  have c6: "scanRows (exampleEnv\<lparr>Unmarshal := \<lambda>data target. (target, False)\<rparr>)
         [goodRow, failedRow, garbledRow] [] =
       scanRows exampleEnv [goodRow, failedRow, garbledRow] []"
    using w h3 by blast
  from h1 h2 c1 c2 c3 c4 c5 c6 show ?thesis by (intro conjI)
qed


subsection \<open>Ingredient tokens\<close>

lemma ingredient_entries:
  "(''include_ingredients'', ''AND ingredients LIKE ?'') \<in> set mcpFilters"
  "(''exclude_ingredients'', ''AND ingredients NOT LIKE ?'') \<in> set mcpFilters"
  by (simp_all add: mcpFilters_def)

lemma mcpSearchRecipesSQL_visit:
  assumes "rangeVisitsAll e" "(key, condition) \<in> set mcpFilters"
    and "key = ''include_ingredients'' \<or> key = ''exclude_ingredients''"
  shows "\<exists>pre post. rangeFilters e mcpFilters = pre @ (key, condition) # post
     \<and> key \<notin> fst ` set (pre @ post)
     \<and> (let S = fold (mcpFilter e args) pre (withDiet e (stringArg args ''diet'') (selectRecipes, []));
            I = likeBlock ('' '' @ condition) (tokens (stringArg args key));
            P = fold (mcpFilter e args) post ([], [])
        in mcpSearchRecipesSQL e args =
             (orderBy (if stringArg args ''sort_by'' \<noteq> '''' then stringArg args ''sort_by'' else ''id'')
                (if stringArg args ''sort_order'' \<noteq> '''' then stringArg args ''sort_order'' else ''asc'')
                (fst S @ fst I @ fst P) @ '' LIMIT 20'',
              snd S @ snd I @ snd P))"
proof -
  obtain pre post where s: "rangeFilters e mcpFilters = pre @ (key, condition) # post"
    and k: "key \<notin> fst ` set (pre @ post)"
    using mcpFilters_visit[OF assms(1,2)] by blast
  have "mcpSearchRecipesSQL e args =
      (orderBy (if stringArg args ''sort_by'' \<noteq> '''' then stringArg args ''sort_by'' else ''id'')
         (if stringArg args ''sort_order'' \<noteq> '''' then stringArg args ''sort_order'' else ''asc'')
         (fst (fold (mcpFilter e args) pre (withDiet e (stringArg args ''diet'') (selectRecipes, [])))
           @ fst (likeBlock ('' '' @ condition) (tokens (stringArg args key)) :: 'a sql)
           @ fst (fold (mcpFilter e args) post ([], []))) @ '' LIMIT 20'',
       snd (fold (mcpFilter e args) pre (withDiet e (stringArg args ''diet'') (selectRecipes, [])))
         @ snd (likeBlock ('' '' @ condition) (tokens (stringArg args key)) :: 'a sql)
         @ snd (fold (mcpFilter e args) post ([], [])))"
    unfolding mcpSearchRecipesSQL_def mcpSearchRecipesWhere_visit[OF s assms(3)] Let_def
    by (simp only: fst_conv snd_conv)
  with s k show ?thesis unfolding Let_def by blast
qed

text \<open>
  Claim C9: every comma-separated token of \<^verbatim>\<open>include_ingredients\<close> or
  \<^verbatim>\<open>exclude_ingredients\<close> is trimmed before it is wrapped in wildcards, and a token that is
  empty after trimming is skipped.

  Tokens are trimmed, but none is skipped: \<^verbatim>\<open>a, ,b\<close> gives three fragments, the middle
  one bound to \<^verbatim>\<open>%%\<close>.
\<close>

theorem searchRecipes_empty_token_kept:
  "searchRecipesSQL exampleEnv [''include_ingredients'' \<mapsto> ''a, ,b''] =
     (selectRecipes @ '' AND ingredients LIKE ? AND ingredients LIKE ? AND ingredients LIKE ? ORDER BY id ASC LIMIT 100'',
      [IString ''%a%'', IString ''%%'', IString ''%b%''])"
  by (simp add: eval_defs)

text \<open>
  Claim C9 as amended. The query \<^verbatim>\<open>searchRecipes\<close> hands to the store is the preset and
  text-search part, then one \<^verbatim>\<open>AND ingredients LIKE ?\<close> for each piece of
  \<^verbatim>\<open>include_ingredients\<close>, then one \<^verbatim>\<open>AND ingredients NOT LIKE ?\<close> for each piece of
  \<^verbatim>\<open>exclude_ingredients\<close>, then the range part, and its arguments are in the same order,
  the argument of a piece being the piece trimmed and wrapped in \<^verbatim>\<open>%\<close>. The loop of
  \<^verbatim>\<open>mcpSearchRecipes\<close> visits each of the two keys exactly once and appends the same
  fragments and arguments at that point, between what the earlier and the later iterations
  append. An empty value has no pieces and contributes nothing; any other value has one piece
  more than it has commas, so no piece is skipped, an empty one neither; and a trimmed piece
  neither starts nor ends with white space.
\<close>


theorem ingredient_tokens_trimmed_none_skipped:
  assumes "rangeVisitsAll e"
  shows
    "(let B = textSearch (Query c ''search'') (withDiet e (Query c ''diet'') (selectRecipes, []));
          I = likeBlock '' AND ingredients LIKE ?'' (tokens (Query c ''include_ingredients''));
          X = likeBlock '' AND ingredients NOT LIKE ?'' (tokens (Query c ''exclude_ingredients''));
          N = fold (numericFilter e c) numericParams ([], [])
      in searchRecipesSQL e c =
           (orderBy (DefaultQuery c ''sort_by'' ''id'') (DefaultQuery c ''sort_order'' ''asc'')
              (fst B @ fst I @ fst X @ fst N) @ '' LIMIT 100'',
            snd B @ snd I @ snd X @ snd N))
     \<and> (\<exists>pre post.
          rangeFilters e mcpFilters = pre @ (''include_ingredients'', ''AND ingredients LIKE ?'') # post
          \<and> ''include_ingredients'' \<notin> fst ` set (pre @ post)
          \<and> (let S = fold (mcpFilter e args) pre
                       (withDiet e (stringArg args ''diet'') (selectRecipes, []));
                 I = likeBlock '' AND ingredients LIKE ?''
                       (tokens (stringArg args ''include_ingredients''));
                 P = fold (mcpFilter e args) post ([], [])
             in mcpSearchRecipesSQL e args =
                  (orderBy
                     (if stringArg args ''sort_by'' \<noteq> '''' then stringArg args ''sort_by'' else ''id'')
                     (if stringArg args ''sort_order'' \<noteq> '''' then stringArg args ''sort_order''
                      else ''asc'')
                     (fst S @ fst I @ fst P) @ '' LIMIT 20'',
                   snd S @ snd I @ snd P)))
     \<and> (\<exists>pre post.
          rangeFilters e mcpFilters =
            pre @ (''exclude_ingredients'', ''AND ingredients NOT LIKE ?'') # post
          \<and> ''exclude_ingredients'' \<notin> fst ` set (pre @ post)
          \<and> (let S = fold (mcpFilter e args) pre
                       (withDiet e (stringArg args ''diet'') (selectRecipes, []));
                 X = likeBlock '' AND ingredients NOT LIKE ?''
                       (tokens (stringArg args ''exclude_ingredients''));
                 P = fold (mcpFilter e args) post ([], [])
             in mcpSearchRecipesSQL e args =
                  (orderBy
                     (if stringArg args ''sort_by'' \<noteq> '''' then stringArg args ''sort_by'' else ''id'')
                     (if stringArg args ''sort_order'' \<noteq> '''' then stringArg args ''sort_order''
                      else ''asc'')
                     (fst S @ fst X @ fst P) @ '' LIMIT 20'',
                   snd S @ snd X @ snd P)))
     \<and> (\<forall>v. length (tokens v) = (if v = '''' then 0 else Suc (count_list v CHR '','')))
     \<and> (\<forall>t. \<not> startsWithSpace (TrimSpace t) \<and> \<not> endsWithSpace (TrimSpace t))"
proof -
  have rest: "(let B = textSearch (Query c ''search'') (withDiet e (Query c ''diet'') (selectRecipes, []));
          I = likeBlock '' AND ingredients LIKE ?'' (tokens (Query c ''include_ingredients''));
          X = likeBlock '' AND ingredients NOT LIKE ?'' (tokens (Query c ''exclude_ingredients''));
          N = fold (numericFilter e c) numericParams ([], [])
      in searchRecipesSQL e c =
           (orderBy (DefaultQuery c ''sort_by'' ''id'') (DefaultQuery c ''sort_order'' ''asc'')
              (fst B @ fst I @ fst X @ fst N) @ '' LIMIT 100'',
            snd B @ snd I @ snd X @ snd N))"
    unfolding Let_def searchRecipesSQL_def searchRecipesWhere_blocks
    by (simp only: fst_conv snd_conv)
  have inc: "\<exists>pre post.
          rangeFilters e mcpFilters = pre @ (''include_ingredients'', ''AND ingredients LIKE ?'') # post
          \<and> ''include_ingredients'' \<notin> fst ` set (pre @ post)
          \<and> (let S = fold (mcpFilter e args) pre
                       (withDiet e (stringArg args ''diet'') (selectRecipes, []));
                 I = likeBlock '' AND ingredients LIKE ?''
                       (tokens (stringArg args ''include_ingredients''));
                 P = fold (mcpFilter e args) post ([], [])
             in mcpSearchRecipesSQL e args =
                  (orderBy
                     (if stringArg args ''sort_by'' \<noteq> '''' then stringArg args ''sort_by'' else ''id'')
                     (if stringArg args ''sort_order'' \<noteq> '''' then stringArg args ''sort_order''
                      else ''asc'')
                     (fst S @ fst I @ fst P) @ '' LIMIT 20'',
                   snd S @ snd I @ snd P))"
    using mcpSearchRecipesSQL_visit[OF assms ingredient_entries(1), of args] by simp
  have exc: "\<exists>pre post.
          rangeFilters e mcpFilters =
            pre @ (''exclude_ingredients'', ''AND ingredients NOT LIKE ?'') # post
          \<and> ''exclude_ingredients'' \<notin> fst ` set (pre @ post)
          \<and> (let S = fold (mcpFilter e args) pre
                       (withDiet e (stringArg args ''diet'') (selectRecipes, []));
                 X = likeBlock '' AND ingredients NOT LIKE ?''
                       (tokens (stringArg args ''exclude_ingredients''));
                 P = fold (mcpFilter e args) post ([], [])
             in mcpSearchRecipesSQL e args =
                  (orderBy
                     (if stringArg args ''sort_by'' \<noteq> '''' then stringArg args ''sort_by'' else ''id'')
                     (if stringArg args ''sort_order'' \<noteq> '''' then stringArg args ''sort_order''
                      else ''asc'')
                     (fst S @ fst X @ fst P) @ '' LIMIT 20'',
                   snd S @ snd X @ snd P))"
    using mcpSearchRecipesSQL_visit[OF assms ingredient_entries(2), of args] by simp
  have len: "\<forall>v. length (tokens v) = (if v = '''' then 0 else Suc (count_list v CHR '',''))"
    by (simp add: length_tokens)
  have trim: "\<forall>t. \<not> startsWithSpace (TrimSpace t) \<and> \<not> endsWithSpace (TrimSpace t)"
    using TrimSpace_trimmed by blast
  from rest inc exc len trim show ?thesis by (intro conjI)
qed

theorem ingredient_tokens_trimmed_none_skipped_witness:
  "rangeVisitsAll exampleEnv
   \<and> searchRecipesSQL exampleEnv
       [''include_ingredients'' \<mapsto> ''a, ,b'', ''exclude_ingredients'' \<mapsto> '' pork ,beef''] =
       (selectRecipes @ '' AND ingredients LIKE ? AND ingredients LIKE ? AND ingredients LIKE ? AND ingredients NOT LIKE ? AND ingredients NOT LIKE ? ORDER BY id ASC LIMIT 100'',
        [IString ''%a%'', IString ''%%'', IString ''%b%'', IString ''%pork%'', IString ''%beef%''])
   \<and> length (tokens ''a, ,b'') = 3
   \<and> \<not> startsWithSpace (TrimSpace '' pork '') \<and> \<not> endsWithSpace (TrimSpace '' pork '')"
proof -
  have h: "rangeVisitsAll exampleEnv" by (rule rangeVisitsAll_exampleEnv)
  note w = ingredient_tokens_trimmed_none_skipped
    [where e = exampleEnv
       and c = "[''include_ingredients'' \<mapsto> ''a, ,b'', ''exclude_ingredients'' \<mapsto> '' pork ,beef'']"
       and args = "[''exclude_ingredients'' \<mapsto> IString ''a, ,b'']",
     OF h]
  have c1: "searchRecipesSQL exampleEnv
       [''include_ingredients'' \<mapsto> ''a, ,b'', ''exclude_ingredients'' \<mapsto> '' pork ,beef''] =
       (selectRecipes @ '' AND ingredients LIKE ? AND ingredients LIKE ? AND ingredients LIKE ? AND ingredients NOT LIKE ? AND ingredients NOT LIKE ? ORDER BY id ASC LIMIT 100'',
        [IString ''%a%'', IString ''%%'', IString ''%b%'', IString ''%pork%'', IString ''%beef%''])"
    using w[THEN conjunct1]
    by (simp add: Let_def likeBlock_def tokens_def TrimSpace_def leadingRune_def spaceRunes_def
        numericParams_def Query_def DefaultQuery_def withDiet_def orderBy_def validSortColumns_def)
  have c2: "length (tokens ''a, ,b'') = 3"
    using w[THEN conjunct2, THEN conjunct2, THEN conjunct2, THEN conjunct1] by simp
  have c3: "\<not> startsWithSpace (TrimSpace '' pork '') \<and> \<not> endsWithSpace (TrimSpace '' pork '')"
    using w[THEN conjunct2, THEN conjunct2, THEN conjunct2, THEN conjunct2] by blast
  from h c1 c2 c3 show ?thesis by blast
qed

subsection \<open>The text each step appends\<close>

lemma fst_appendLike: "fst (appendLike f ts s) = fst s @ concat (replicate (length ts) f)"
  by (cases s) (simp add: appendLike_eq)

lemma snd_appendLike:
  "snd (appendLike f ts s) = snd s @ map (\<lambda>t. IString (''%'' @ t @ ''%'')) ts"
  by (cases s) (simp add: appendLike_eq)

lemma dietFilter_emits: "dietFilter kv (q, a) = (q @ fst (emits kv), a @ snd (emits kv))"
  by (cases kv) (simp add: emits_def appendLike_eq split: option.splits iface.splits)

lemma applyDietFilters_emits:
  "applyDietFilters q a kvs =
     (q @ concat (map (\<lambda>kv. fst (emits kv)) kvs), a @ concat (map (\<lambda>kv. snd (emits kv)) kvs))"
  unfolding applyDietFilters_def
  by (induction kvs arbitrary: q a) (simp_all add: dietFilter_emits)


lemma fst_textSearch:
  "fst (textSearch v s) =
     fst s @ (if v \<noteq> [] then '' AND (name LIKE ? OR description LIKE ?)'' else [])"
  by (cases s) simp

lemma fst_ingredientFilter:
  "fst (ingredientFilter f v s) = fst s @ concat (replicate (tokenCount v) f)"
  by (simp add: ingredientFilter_def fst_appendLike tokenCount_def length_Split)

lemma fst_numericFilter:
  "fst (numericFilter e c p s) = fst s @ (if numericApplies e c p then snd (snd p) else [])"
  by (cases p; cases s) (auto split: option.splits)

lemma fst_fold_numericFilter:
  "fst (fold (numericFilter e c) ps s) =
     fst s @ concat (map (\<lambda>p. if numericApplies e c p then snd (snd p) else []) ps)"
  by (induction ps arbitrary: s) (simp_all add: fst_numericFilter)




subsection \<open>Fixed text\<close>

lemma fixedText_select: "fixedText selectRecipes"
  unfolding fixedText_def by (rule exI[of _ "[]"]) simp

lemma fixedText_concat:
  assumes "fixedText q" "set gs \<subseteq> set fixedFragments"
  shows "fixedText (q @ concat gs)"
proof -
  from assms(1) obtain fs where fs: "set fs \<subseteq> set fixedFragments" "q = selectRecipes @ concat fs"
    unfolding fixedText_def by blast
  have "set (fs @ gs) \<subseteq> set fixedFragments" using fs(1) assms(2) by simp
  moreover have "q @ concat gs = selectRecipes @ concat (fs @ gs)" using fs(2) by simp
  ultimately show ?thesis unfolding fixedText_def by blast
qed

lemma fixedText_replicate:
  assumes "fixedText q" "f \<in> set fixedFragments"
  shows "fixedText (q @ concat (replicate n f))"
  using assms by (intro fixedText_concat) auto

lemma fixedText_app:
  assumes "fixedText q" "f \<in> set fixedFragments"
  shows "fixedText (q @ f)"
  using fixedText_replicate[OF assms, of 1] by simp

lemma like_fixed:
  "'' AND (name LIKE ? OR description LIKE ?)'' \<in> set fixedFragments"
  "'' AND ingredients LIKE ?'' \<in> set fixedFragments"
  "'' AND ingredients NOT LIKE ?'' \<in> set fixedFragments"
  by (simp_all add: fixedFragments_def)

lemma numeric_fixed: "p \<in> set numericParams \<Longrightarrow> snd (snd p) \<in> set fixedFragments"
  by (cases p) (force simp: fixedFragments_def)

lemma dietRange_fixed:
  "map_of dietRangeCases key = Some fragment \<Longrightarrow> fragment \<in> set fixedFragments"
proof -
  assume "map_of dietRangeCases key = Some fragment"
  then have "(key, fragment) \<in> set dietRangeCases" by (rule map_of_SomeD)
  then have "fragment \<in> snd ` set dietRangeCases" by force
  also have "snd ` set dietRangeCases \<subseteq> set fixedFragments"
    by (simp add: dietRangeCases_def fixedFragments_def numericParams_def)
  finally show ?thesis .
qed

lemma mcp_fixed: "(key, condition) \<in> set mcpFilters \<Longrightarrow> '' '' @ condition \<in> set fixedFragments"
proof -
  assume "(key, condition) \<in> set mcpFilters"
  then have "'' '' @ condition \<in> (\<lambda>p. '' '' @ snd p) ` set mcpFilters" by force
  also have "(\<lambda>p. '' '' @ snd p) ` set mcpFilters \<subseteq> set fixedFragments"
    by (simp add: mcpFilters_def fixedFragments_def numericParams_def)
  finally show ?thesis .
qed

lemma emits_fixed: "\<exists>gs. set gs \<subseteq> set fixedFragments \<and> fst (emits kv) = concat gs"
proof (cases kv)
  case (Pair key val)
  show ?thesis
  proof (cases "map_of dietRangeCases key")
    case (Some fragment)
    have f: "fragment \<in> set fixedFragments" using Some by (rule dietRange_fixed)
    show ?thesis
    proof (cases "\<exists>n. val = IInt n")
      case True
      then have "fst (emits kv) = concat [fragment]"
        using Pair Some by (auto simp: emits_def)
      with f show ?thesis by (intro exI[of _ "[fragment]"]) simp
    next
      case False
      then have "fst (emits kv) = concat []"
        using Pair Some by (cases val) (auto simp: emits_def)
      then show ?thesis by (intro exI[of _ "[]"]) simp
    qed
  next
    case None
    show ?thesis
    proof (cases "\<exists>is. val = IStrings is \<and> (key = ''exclude_ingredients'' \<or> key = ''include_ingredients'')")
      case True
      then obtain "is" where v: "val = IStrings is" by blast
      from True have "fst (emits kv) = concat (replicate (length is) '' AND ingredients NOT LIKE ?'')
          \<or> fst (emits kv) = concat (replicate (length is) '' AND ingredients LIKE ?'')"
        using Pair None v by (auto simp: emits_def appendLike_eq)
      then show ?thesis
      proof
        assume a: "fst (emits kv) = concat (replicate (length is) '' AND ingredients NOT LIKE ?'')"
        show ?thesis
          by (rule exI[of _ "replicate (length is) '' AND ingredients NOT LIKE ?''"])
             (use a like_fixed in auto)
      next
        assume a: "fst (emits kv) = concat (replicate (length is) '' AND ingredients LIKE ?'')"
        show ?thesis
          by (rule exI[of _ "replicate (length is) '' AND ingredients LIKE ?''"])
             (use a like_fixed in auto)
      qed
    next
      case False
      then have "fst (emits kv) = concat []"
        using Pair None by (cases val) (auto simp: emits_def)
      then show ?thesis by (intro exI[of _ "[]"]) simp
    qed
  qed
qed

lemma emits_concat_fixed:
  "fixedText q \<Longrightarrow> fixedText (q @ concat (map (\<lambda>kv. fst (emits kv)) kvs))"
proof (induction kvs arbitrary: q)
  case Nil
  then show ?case by simp
next
  case (Cons kv kvs)
  obtain gs where gs: "set gs \<subseteq> set fixedFragments" "fst (emits kv) = concat gs"
    using emits_fixed by blast
  have "fixedText (q @ fst (emits kv))"
    unfolding gs(2) using Cons.prems gs(1) by (rule fixedText_concat)
  from Cons.IH[OF this] show ?case by simp
qed

lemma withDiet_fixed: "fixedText (fst s) \<Longrightarrow> fixedText (fst (withDiet e d s))"
  by (cases s) (simp add: withDiet_def applyDietFilters_emits emits_concat_fixed split: option.splits)

lemma numeric_concat_fixed:
  "set (map (\<lambda>p. if numericApplies e c p then snd (snd p) else []) (filter (numericApplies e c) numericParams))
     \<subseteq> set fixedFragments"
  using numeric_fixed by auto

lemma concat_map_if:
  "concat (map (\<lambda>p. if P p then f p else []) ps) = concat (map f (filter P ps))"
  by (induction ps) simp_all

lemma searchRecipesWhere_fixed: "fixedText (fst (searchRecipesWhere e c))"
proof -
  have 0: "fixedText (fst (withDiet e (Query c ''diet'') (selectRecipes, [])))"
    by (rule withDiet_fixed) (simp add: fixedText_select)
  have 1: "fixedText (fst (textSearch (Query c ''search'') (withDiet e (Query c ''diet'') (selectRecipes, []))))"
    unfolding fst_textSearch using 0 like_fixed(1) by (auto intro: fixedText_app)
  have 2: "fixedText (fst (ingredientFilter '' AND ingredients LIKE ?'' (Query c ''include_ingredients'')
        (textSearch (Query c ''search'') (withDiet e (Query c ''diet'') (selectRecipes, [])))))"
    unfolding fst_ingredientFilter using 1 like_fixed(2) by (rule fixedText_replicate)
  have 3: "fixedText (fst (ingredientFilter '' AND ingredients NOT LIKE ?'' (Query c ''exclude_ingredients'')
      (ingredientFilter '' AND ingredients LIKE ?'' (Query c ''include_ingredients'')
        (textSearch (Query c ''search'') (withDiet e (Query c ''diet'') (selectRecipes, []))))))"
    unfolding fst_ingredientFilter[of "'' AND ingredients NOT LIKE ?''"]
    using 2 like_fixed(3) by (rule fixedText_replicate)
  have "set (map (\<lambda>p. snd (snd p)) (filter (numericApplies e c) numericParams)) \<subseteq> set fixedFragments"
    using numeric_fixed by auto
  with 3 show ?thesis
    unfolding searchRecipesWhere_def fst_fold_numericFilter concat_map_if
    by (rule fixedText_concat)
qed

subsection \<open>The text of the tool surface\<close>

lemma fragmentCount_ingredients:
  assumes "key = ''include_ingredients'' \<or> key = ''exclude_ingredients''"
  shows "fragmentCount args key = length (tokens (stringArg args key))"
  using assms
  by (auto simp: fragmentCount_def stringArg_def tokenCount_def length_tokens
      split: option.splits iface.splits)

lemma fst_likeBlock: "fst (likeBlock f ts) = concat (replicate (length ts) f)"
  by (simp add: likeBlock_def map_replicate_const)

lemma fst_mcpFilter:
  "fst (mcpFilter e args (key, condition) s) =
     fst s @ concat (replicate (fragmentCount args key) ('' '' @ condition))"
proof (cases s)
  case (Pair q a)
  show ?thesis
  proof (cases "key = ''include_ingredients'' \<or> key = ''exclude_ingredients''")
    case True
    have "mcpFilter e args (key, condition) (q, a) =
        (q @ fst (likeBlock ('' '' @ condition) (tokens (stringArg args key)) :: 'a sql),
         a @ snd (likeBlock ('' '' @ condition) (tokens (stringArg args key)) :: 'a sql))"
      using True by (rule mcpFilter_ingredients_block)
    then have "fst (mcpFilter e args (key, condition) (q, a)) =
        q @ concat (replicate (length (tokens (stringArg args key))) ('' '' @ condition))"
      by (simp add: fst_likeBlock)
    then show ?thesis
      unfolding Pair using fragmentCount_ingredients[OF True, of args] by simp
  next
    case False
    then show ?thesis unfolding Pair
      by (simp add: fragmentCount_def split: option.splits iface.splits)
  qed
qed

lemma fst_fold_mcpFilter:
  "fst (fold (mcpFilter e args) kcs s) =
     fst s @ concat (map (\<lambda>kc. concat (replicate (fragmentCount args (fst kc)) ('' '' @ snd kc))) kcs)"
proof (induction kcs arbitrary: s)
  case Nil
  show ?case by simp
next
  case (Cons kc kcs)
  obtain key condition where kc: "kc = (key, condition)" by (cases kc)
  show ?case by (simp add: Cons.IH kc fst_mcpFilter)
qed



lemma concat_map_concat_eq:
  "concat (map (\<lambda>x. concat (g x)) xs) = concat (concat (map g xs))"
  by (induction xs) simp_all

lemma mcpSearchRecipesWhere_fixed:
  assumes "rangeVisitsAll e"
  shows "fixedText (fst (mcpSearchRecipesWhere e args))"
proof -
  have 0: "fixedText (fst (withDiet e (stringArg args ''diet'') (selectRecipes, [])))"
    by (rule withDiet_fixed) (simp add: fixedText_select)
  have s: "set (concat (map (\<lambda>kc. replicate (fragmentCount args (fst kc)) ('' '' @ snd kc))
          (rangeFilters e mcpFilters))) \<subseteq> set fixedFragments"
  proof
    fix f assume "f \<in> set (concat (map (\<lambda>kc. replicate (fragmentCount args (fst kc)) ('' '' @ snd kc))
          (rangeFilters e mcpFilters)))"
    then obtain kc where kc: "kc \<in> set (rangeFilters e mcpFilters)" "f = '' '' @ snd kc"
      by (auto split: if_splits)
    from kc(1) have "(fst kc, snd kc) \<in> set mcpFilters"
      using rangeFilters_set[OF assms] by simp
    then show "f \<in> set fixedFragments" unfolding kc(2) by (rule mcp_fixed)
  qed
  show ?thesis
    unfolding mcpSearchRecipesWhere_def fst_fold_mcpFilter concat_map_concat_eq
    using 0 s by (rule fixedText_concat)
qed

lemma orderBy_clause: "\<exists>s. s \<in> set sortClauses \<and> orderBy sortBy sortOrder q = q @ s"
proof (cases "sortBy \<in> set validSortColumns")
  case True
  then have "'' ORDER BY '' @ sortBy @ '' ASC'' \<in> set sortClauses"
    and "'' ORDER BY '' @ sortBy @ '' DESC'' \<in> set sortClauses"
    unfolding sortClauses_def by auto
  then show ?thesis using True by (auto simp: orderBy_def)
next
  case False
  have "[] \<in> set sortClauses" by (simp add: sortClauses_def)
  then show ?thesis using False by (auto simp: orderBy_def intro: exI[of _ "[]"])
qed


subsection \<open>The query text and the caller's values\<close>





subsection \<open>The parameters the filters read\<close>

lemma numericFilter_upd:
  assumes "fst p \<noteq> k"
  shows "numericFilter e (c(k := x)) p s = numericFilter e c p s"
  using assms by (cases p; cases s) (simp add: Query_def)

lemma fold_numericFilter_upd:
  assumes "\<forall>p \<in> set ps. fst p \<noteq> k"
  shows "fold (numericFilter e (c(k := x))) ps s = fold (numericFilter e c) ps s"
  using assms by (induction ps arbitrary: s) (simp_all add: numericFilter_upd)

lemma numericParams_keys:
  "\<forall>p \<in> set numericParams. fst p \<noteq> ''sort_by''"
  "\<forall>p \<in> set numericParams. fst p \<noteq> ''sort_order''"
  by (simp_all add: numericParams_def)

lemma searchRecipesWhere_upd:
  assumes "k = ''sort_by'' \<or> k = ''sort_order''"
  shows "searchRecipesWhere e (c(k := x)) = searchRecipesWhere e c"
proof -
  have n: "\<forall>p \<in> set numericParams. fst p \<noteq> k"
    using assms numericParams_keys by blast
  have q: "Query (c(k := x)) ''diet'' = Query c ''diet''"
      "Query (c(k := x)) ''search'' = Query c ''search''"
      "Query (c(k := x)) ''include_ingredients'' = Query c ''include_ingredients''"
      "Query (c(k := x)) ''exclude_ingredients'' = Query c ''exclude_ingredients''"
    using assms by (auto simp: Query_def)
  show ?thesis
    unfolding searchRecipesWhere_def q by (rule fold_numericFilter_upd[OF n])
qed

lemma mcpFilter_upd:
  assumes "fst kc \<noteq> k"
  shows "mcpFilter e (args(k := x)) kc s = mcpFilter e args kc s"
  using assms by (cases kc; cases s) simp

lemma fold_mcpFilter_upd:
  assumes "\<forall>kc \<in> set kcs. fst kc \<noteq> k"
  shows "fold (mcpFilter e (args(k := x))) kcs s = fold (mcpFilter e args) kcs s"
  using assms by (induction kcs arbitrary: s) (simp_all add: mcpFilter_upd)

lemma mcpFilters_keys:
  "\<forall>kc \<in> set mcpFilters. fst kc \<noteq> ''sort_by''"
  "\<forall>kc \<in> set mcpFilters. fst kc \<noteq> ''sort_order''"
  by (simp_all add: mcpFilters_def)

lemma mcpSearchRecipesWhere_upd:
  assumes "rangeVisitsAll e" "k = ''sort_by'' \<or> k = ''sort_order''"
  shows "mcpSearchRecipesWhere e (args(k := x)) = mcpSearchRecipesWhere e args"
proof -
  have n: "\<forall>kc \<in> set (rangeFilters e mcpFilters). fst kc \<noteq> k"
    using assms mcpFilters_keys rangeFilters_set[OF assms(1)] by blast
  have d: "stringArg (args(k := x)) ''diet'' = stringArg args ''diet''"
    using assms(2) by (auto simp: stringArg_def)
  show ?thesis
    unfolding mcpSearchRecipesWhere_def d by (rule fold_mcpFilter_upd[OF n])
qed

lemma DefaultQuery_upd:
  "DefaultQuery (c(k \<mapsto> v)) k d = v"
  "k' \<noteq> k \<Longrightarrow> DefaultQuery (c(k := x)) k' d = DefaultQuery c k' d"
  by (simp_all add: DefaultQuery_def)

lemma stringArg_upd:
  "stringArg (args(k \<mapsto> IString v)) k = v"
  "k' \<noteq> k \<Longrightarrow> stringArg (args(k := x)) k' = stringArg args k'"
  by (simp_all add: stringArg_def)


subsection \<open>The sort direction\<close>

text \<open>
  Claim C10: the sort direction is fail-closed. For every \<^verbatim>\<open>sort_order\<close> value other than
  the exact string \<^verbatim>\<open>desc\<close> the engine appends the literal \<^verbatim>\<open>ASC\<close>, and the value itself
  is never concatenated into the query text.

  On both surfaces a request with such a value has the query and the arguments of the same
  request with \<^verbatim>\<open>sort_order=asc\<close>. Whenever a sort clause is emitted, that is whenever the
  sort column (the default \<^verbatim>\<open>id\<close> when none is given) is whitelisted, the clause is
  \<^verbatim>\<open>ORDER BY\<close>, the column and the literal \<^verbatim>\<open>ASC\<close>, between the text that is built without
  reading \<^verbatim>\<open>sort_order\<close> and the row cap; otherwise the row cap follows that text
  directly. On the tool surface the value may be of any JSON type.
\<close>


theorem sort_order_fail_closed:
  assumes "rangeVisitsAll e" and "v \<noteq> ''desc''" and "x \<noteq> IString ''desc''"
  shows
    "searchRecipesSQL e (c(''sort_order'' \<mapsto> v)) = searchRecipesSQL e (c(''sort_order'' \<mapsto> ''asc''))
     \<and> searchRecipesSQL e (c(''sort_order'' \<mapsto> v)) =
         (if DefaultQuery c ''sort_by'' ''id'' \<in> set validSortColumns
          then fst (searchRecipesWhere e c) @ '' ORDER BY '' @ DefaultQuery c ''sort_by'' ''id''
                 @ '' ASC'' @ '' LIMIT 100''
          else fst (searchRecipesWhere e c) @ '' LIMIT 100'',
          snd (searchRecipesWhere e c))
     \<and> mcpSearchRecipesSQL e (args(''sort_order'' \<mapsto> x)) =
         mcpSearchRecipesSQL e (args(''sort_order'' \<mapsto> IString ''asc''))
     \<and> mcpSearchRecipesSQL e (args(''sort_order'' \<mapsto> x)) =
         (if (if stringArg args ''sort_by'' \<noteq> '''' then stringArg args ''sort_by'' else ''id'')
               \<in> set validSortColumns
          then fst (mcpSearchRecipesWhere e args) @ '' ORDER BY ''
                 @ (if stringArg args ''sort_by'' \<noteq> '''' then stringArg args ''sort_by'' else ''id'')
                 @ '' ASC'' @ '' LIMIT 20''
          else fst (mcpSearchRecipesWhere e args) @ '' LIMIT 20'',
          snd (mcpSearchRecipesWhere e args))"
proof -
  have w: "searchRecipesWhere e (c(''sort_order'' \<mapsto> v)) = searchRecipesWhere e c"
      "searchRecipesWhere e (c(''sort_order'' \<mapsto> ''asc'')) = searchRecipesWhere e c"
    by (simp_all add: searchRecipesWhere_upd)
  have m: "mcpSearchRecipesWhere e (args(''sort_order'' \<mapsto> x)) = mcpSearchRecipesWhere e args"
      "mcpSearchRecipesWhere e (args(''sort_order'' \<mapsto> IString ''asc'')) = mcpSearchRecipesWhere e args"
    by (simp_all add: mcpSearchRecipesWhere_upd[OF assms(1)])
  have sb: "DefaultQuery (c(''sort_order'' \<mapsto> v)) ''sort_by'' ''id'' = DefaultQuery c ''sort_by'' ''id''"
      "DefaultQuery (c(''sort_order'' \<mapsto> ''asc'')) ''sort_by'' ''id'' = DefaultQuery c ''sort_by'' ''id''"
    by (simp_all add: DefaultQuery_def)
  have sa: "stringArg (args(''sort_order'' \<mapsto> x)) ''sort_by'' = stringArg args ''sort_by''"
      "stringArg (args(''sort_order'' \<mapsto> IString ''asc'')) ''sort_by'' = stringArg args ''sort_by''"
    by (simp_all add: stringArg_def)
  have dx: "(if stringArg (args(''sort_order'' \<mapsto> x)) ''sort_order'' \<noteq> ''''
             then stringArg (args(''sort_order'' \<mapsto> x)) ''sort_order'' else ''asc'') \<noteq> ''desc''"
    using assms(3) by (cases x) (simp_all add: stringArg_def)
  have da: "(if stringArg (args(''sort_order'' \<mapsto> IString ''asc'')) ''sort_order'' \<noteq> ''''
             then stringArg (args(''sort_order'' \<mapsto> IString ''asc'')) ''sort_order'' else ''asc'')
            \<noteq> ''desc''"
    by (simp add: stringArg_def)
  have 1: "searchRecipesSQL e (c(''sort_order'' \<mapsto> v)) =
      searchRecipesSQL e (c(''sort_order'' \<mapsto> ''asc''))"
    using assms(2) by (simp add: searchRecipesSQL_def w sb DefaultQuery_upd(1) orderBy_def Let_def)
  have 2: "searchRecipesSQL e (c(''sort_order'' \<mapsto> v)) =
         (if DefaultQuery c ''sort_by'' ''id'' \<in> set validSortColumns
          then fst (searchRecipesWhere e c) @ '' ORDER BY '' @ DefaultQuery c ''sort_by'' ''id''
                 @ '' ASC'' @ '' LIMIT 100''
          else fst (searchRecipesWhere e c) @ '' LIMIT 100'',
          snd (searchRecipesWhere e c))"
    using assms(2) by (simp add: searchRecipesSQL_def w sb DefaultQuery_upd(1) orderBy_def Let_def)
  have g: "\<And>d. d \<noteq> ''desc'' \<Longrightarrow>
      (orderBy (if stringArg args ''sort_by'' \<noteq> '''' then stringArg args ''sort_by'' else ''id'') d
         (fst (mcpSearchRecipesWhere e args)) @ '' LIMIT 20'',
       snd (mcpSearchRecipesWhere e args)) =
      (if (if stringArg args ''sort_by'' \<noteq> '''' then stringArg args ''sort_by'' else ''id'')
               \<in> set validSortColumns
          then fst (mcpSearchRecipesWhere e args) @ '' ORDER BY ''
                 @ (if stringArg args ''sort_by'' \<noteq> '''' then stringArg args ''sort_by'' else ''id'')
                 @ '' ASC'' @ '' LIMIT 20''
          else fst (mcpSearchRecipesWhere e args) @ '' LIMIT 20'',
          snd (mcpSearchRecipesWhere e args))"
    by (simp add: orderBy_def)
  have 4: "mcpSearchRecipesSQL e (args(''sort_order'' \<mapsto> x)) =
         (if (if stringArg args ''sort_by'' \<noteq> '''' then stringArg args ''sort_by'' else ''id'')
               \<in> set validSortColumns
          then fst (mcpSearchRecipesWhere e args) @ '' ORDER BY ''
                 @ (if stringArg args ''sort_by'' \<noteq> '''' then stringArg args ''sort_by'' else ''id'')
                 @ '' ASC'' @ '' LIMIT 20''
          else fst (mcpSearchRecipesWhere e args) @ '' LIMIT 20'',
          snd (mcpSearchRecipesWhere e args))"
    unfolding mcpSearchRecipesSQL_def Let_def m sa by (rule g[OF dx])
  have 5: "mcpSearchRecipesSQL e (args(''sort_order'' \<mapsto> IString ''asc'')) =
         (if (if stringArg args ''sort_by'' \<noteq> '''' then stringArg args ''sort_by'' else ''id'')
               \<in> set validSortColumns
          then fst (mcpSearchRecipesWhere e args) @ '' ORDER BY ''
                 @ (if stringArg args ''sort_by'' \<noteq> '''' then stringArg args ''sort_by'' else ''id'')
                 @ '' ASC'' @ '' LIMIT 20''
          else fst (mcpSearchRecipesWhere e args) @ '' LIMIT 20'',
          snd (mcpSearchRecipesWhere e args))"
    unfolding mcpSearchRecipesSQL_def Let_def m sa by (rule g[OF da])
  have 3: "mcpSearchRecipesSQL e (args(''sort_order'' \<mapsto> x)) =
         mcpSearchRecipesSQL e (args(''sort_order'' \<mapsto> IString ''asc''))"
    unfolding 4 5 ..
  from 1 2 3 4 show ?thesis by (intro conjI)
qed

theorem sort_order_fail_closed_witness:
  "rangeVisitsAll exampleEnv \<and> ''DESC'' \<noteq> ''desc'' \<and> IBool True \<noteq> (IString ''desc'' :: int iface)
   \<and> searchRecipesSQL exampleEnv [''sort_by'' \<mapsto> ''rating'', ''sort_order'' \<mapsto> ''DESC''] =
       (selectRecipes @ '' ORDER BY rating ASC LIMIT 100'', [])
   \<and> mcpSearchRecipesSQL exampleEnv
         [''sort_by'' \<mapsto> IString ''rating'', ''sort_order'' \<mapsto> IBool True] =
       (selectRecipes @ '' ORDER BY rating ASC LIMIT 20'', [])"
proof -
  have h1: "rangeVisitsAll exampleEnv" by (rule rangeVisitsAll_exampleEnv)
  have h2: "''DESC'' \<noteq> ''desc''" by simp
  have h3: "IBool True \<noteq> (IString ''desc'' :: int iface)" by simp
  note w = sort_order_fail_closed[where e = exampleEnv and v = "''DESC''" and x = "IBool True"
      and c = "[''sort_by'' \<mapsto> ''rating'']" and args = "[''sort_by'' \<mapsto> IString ''rating'']",
      OF h1 h2 h3]
  have r: "searchRecipesWhere exampleEnv [''sort_by'' \<mapsto> ''rating''] = (selectRecipes, [])"
    by (simp add: eval_defs)
  have t: "mcpSearchRecipesWhere exampleEnv [''sort_by'' \<mapsto> IString ''rating''] = (selectRecipes, [])"
    by (simp add: eval_defs)
  have c1: "searchRecipesSQL exampleEnv [''sort_by'' \<mapsto> ''rating'', ''sort_order'' \<mapsto> ''DESC''] =
      (selectRecipes @ '' ORDER BY rating ASC LIMIT 100'', [])"
    using w[THEN conjunct2, THEN conjunct1]
    by (simp add: r DefaultQuery_def validSortColumns_def)
  have c2: "mcpSearchRecipesSQL exampleEnv
         [''sort_by'' \<mapsto> IString ''rating'', ''sort_order'' \<mapsto> IBool True] =
      (selectRecipes @ '' ORDER BY rating ASC LIMIT 20'', [])"
    using w[THEN conjunct2, THEN conjunct2, THEN conjunct2]
    by (simp add: t stringArg_def validSortColumns_def)
  from h1 h2 h3 c1 c2 show ?thesis by (intro conjI)
qed

subsection \<open>The characters of a query\<close>

lemma set_queryAlphabet:
  "set queryAlphabet =
     set selectRecipes \<union> set (concat fixedFragments) \<union> set (concat sortClauses)
       \<union> set '' LIMIT 100'' \<union> set '' LIMIT 20''"
  unfolding queryAlphabet_def set_remdups set_append by blast

lemma fixedText_alphabet:
  assumes "fixedText w"
  shows "set w \<subseteq> set queryAlphabet"
proof -
  obtain fs where fs: "set fs \<subseteq> set fixedFragments" "w = selectRecipes @ concat fs"
    using assms unfolding fixedText_def by blast
  have "set (concat fs) \<subseteq> set (concat fixedFragments)" using fs(1) by auto
  then show ?thesis unfolding fs(2) set_queryAlphabet by auto
qed

lemma sortClause_alphabet:
  assumes "s \<in> set sortClauses"
  shows "set s \<subseteq> set queryAlphabet"
proof -
  have "set s \<subseteq> set (concat sortClauses)" using assms by auto
  then show ?thesis unfolding set_queryAlphabet by blast
qed

lemma searchRecipesSQL_alphabet: "set (fst (searchRecipesSQL e c)) \<subseteq> set queryAlphabet"
proof -
  obtain s where s: "s \<in> set sortClauses"
      "orderBy (DefaultQuery c ''sort_by'' ''id'') (DefaultQuery c ''sort_order'' ''asc'')
         (fst (searchRecipesWhere e c)) = fst (searchRecipesWhere e c) @ s"
    using orderBy_clause by blast
  have "fst (searchRecipesSQL e c) = fst (searchRecipesWhere e c) @ s @ '' LIMIT 100''"
    by (simp add: searchRecipesSQL_def Let_def s(2))
  moreover have "set '' LIMIT 100'' \<subseteq> set queryAlphabet" unfolding set_queryAlphabet by blast
  ultimately show ?thesis
    using fixedText_alphabet[OF searchRecipesWhere_fixed[of e c]] sortClause_alphabet[OF s(1)]
    by (simp del: set_simps)
qed

lemma mcpSearchRecipesSQL_alphabet:
  assumes "rangeVisitsAll e"
  shows "set (fst (mcpSearchRecipesSQL e args)) \<subseteq> set queryAlphabet"
proof -
  obtain s where s: "s \<in> set sortClauses"
      "orderBy (if stringArg args ''sort_by'' \<noteq> [] then stringArg args ''sort_by'' else ''id'')
         (if stringArg args ''sort_order'' \<noteq> [] then stringArg args ''sort_order'' else ''asc'')
         (fst (mcpSearchRecipesWhere e args)) = fst (mcpSearchRecipesWhere e args) @ s"
    using orderBy_clause by blast
  have "fst (mcpSearchRecipesSQL e args) = fst (mcpSearchRecipesWhere e args) @ s @ '' LIMIT 20''"
    by (simp add: mcpSearchRecipesSQL_def Let_def s(2))
  moreover have "set '' LIMIT 20'' \<subseteq> set queryAlphabet" unfolding set_queryAlphabet by blast
  ultimately show ?thesis
    using fixedText_alphabet[OF mcpSearchRecipesWhere_fixed[OF assms, of args]]
      sortClause_alphabet[OF s(1)]
    by (simp del: set_simps)
qed

lemma foreign_not_sublist:
  assumes "set q \<subseteq> set queryAlphabet" "\<not> set v \<subseteq> set queryAlphabet"
  shows "\<not> sublist v q"
proof
  assume "sublist v q"
  then have "set v \<subseteq> set q" by (rule set_mono_sublist)
  with assms show False by blast
qed

lemma semicolon_foreign: "CHR '';'' \<notin> set queryAlphabet"
  unfolding set_queryAlphabet
  by (simp add: selectRecipes_def fixedFragments_def numericParams_def sortClauses_def
      validSortColumns_def)


subsection \<open>The sort column\<close>

text \<open>
  Claim C6: for every \<^verbatim>\<open>sort_by\<close> input that is not in the whitelist the engine emits no
  \<^verbatim>\<open>ORDER BY\<close> and the input appears nowhere in the generated query; for every input in the
  whitelist the \<^verbatim>\<open>ORDER BY\<close> column is exactly that input.

  The input is never inserted, but it can occur in the query all the same: \<^verbatim>\<open>description\<close>
  is not a sortable column, and the query for \<^verbatim>\<open>sort_by=description\<close> contains the word in
  its fixed \<^verbatim>\<open>SELECT\<close> list.
\<close>


theorem unlisted_sort_by_occurs_in_query:
  "''description'' \<notin> set validSortColumns
   \<and> fst (searchRecipesSQL exampleEnv [''sort_by'' \<mapsto> ''description'']) =
       selectRecipes @ '' LIMIT 100''
   \<and> sublist ''description'' (fst (searchRecipesSQL exampleEnv [''sort_by'' \<mapsto> ''description'']))"
proof -
  have 1: "''description'' \<notin> set validSortColumns" by (simp add: validSortColumns_def)
  have 2: "fst (searchRecipesSQL exampleEnv [''sort_by'' \<mapsto> ''description'']) =
       selectRecipes @ '' LIMIT 100''"
    by (simp add: eval_defs)
  have "selectRecipes @ '' LIMIT 100'' =
      ''SELECT id, name, '' @ ''description'' @ '', image, prep_time_minutes, cook_time_minutes, total_time_minutes, servings, rating, ingredients, instructions, calories, protein, fat, carbs, fiber, sodium FROM recipes WHERE 1=1 LIMIT 100''"
    by (simp add: selectRecipes_def)
  then have 3: "sublist ''description'' (fst (searchRecipesSQL exampleEnv [''sort_by'' \<mapsto> ''description'']))"
    unfolding 2 sublist_def by blast
  from 1 2 3 show ?thesis by (intro conjI)
qed


text \<open>
  Claim C6 as amended. For a \<^verbatim>\<open>sort_by\<close> input that is not in the whitelist the query is
  the text and the arguments that are built without reading \<^verbatim>\<open>sort_by\<close>, followed directly
  by the row cap, with no \<^verbatim>\<open>ORDER BY\<close>; the tool surface treats the empty string as an absent
  argument. An input with a character that occurs nowhere in the text the builders can emit,
  such as \<^verbatim>\<open>;\<close>, appears nowhere in the query. For an input in the whitelist the query is the
  same text followed by \<^verbatim>\<open>ORDER BY\<close>, exactly that input, \<^verbatim>\<open>ASC\<close> or \<^verbatim>\<open>DESC\<close>, and the
  row cap.
\<close>


theorem sort_by_whitelist:
  assumes "rangeVisitsAll e"
  shows
    "(v \<notin> set validSortColumns \<longrightarrow>
        searchRecipesSQL e (c(''sort_by'' \<mapsto> v)) =
          (fst (searchRecipesWhere e c) @ '' LIMIT 100'', snd (searchRecipesWhere e c))
        \<and> mcpSearchRecipesSQL e (args(''sort_by'' \<mapsto> IString v)) =
            (if v = '''' then mcpSearchRecipesSQL e (args(''sort_by'' := None))
             else (fst (mcpSearchRecipesWhere e args) @ '' LIMIT 20'',
                   snd (mcpSearchRecipesWhere e args)))
        \<and> (\<not> set v \<subseteq> set queryAlphabet \<longrightarrow>
              \<not> sublist v (fst (searchRecipesSQL e (c(''sort_by'' \<mapsto> v))))
              \<and> \<not> sublist v (fst (mcpSearchRecipesSQL e (args(''sort_by'' \<mapsto> IString v))))))
     \<and> (v \<in> set validSortColumns \<longrightarrow>
        searchRecipesSQL e (c(''sort_by'' \<mapsto> v)) =
          (fst (searchRecipesWhere e c) @ '' ORDER BY '' @ v
             @ (if DefaultQuery c ''sort_order'' ''asc'' = ''desc'' then '' DESC'' else '' ASC'')
             @ '' LIMIT 100'',
           snd (searchRecipesWhere e c))
        \<and> mcpSearchRecipesSQL e (args(''sort_by'' \<mapsto> IString v)) =
            (fst (mcpSearchRecipesWhere e args) @ '' ORDER BY '' @ v
               @ (if stringArg args ''sort_order'' = ''desc'' then '' DESC'' else '' ASC'')
               @ '' LIMIT 20'',
             snd (mcpSearchRecipesWhere e args)))"
proof -
  have w: "searchRecipesWhere e (c(''sort_by'' \<mapsto> v)) = searchRecipesWhere e c"
    by (simp add: searchRecipesWhere_upd)
  have m: "mcpSearchRecipesWhere e (args(''sort_by'' \<mapsto> IString v)) = mcpSearchRecipesWhere e args"
      "mcpSearchRecipesWhere e (args(''sort_by'' := None)) = mcpSearchRecipesWhere e args"
    by (simp_all add: mcpSearchRecipesWhere_upd[OF assms])
  have so: "DefaultQuery (c(''sort_by'' \<mapsto> v)) ''sort_order'' ''asc'' = DefaultQuery c ''sort_order'' ''asc''"
    by (simp add: DefaultQuery_def)
  have sa: "stringArg (args(''sort_by'' \<mapsto> IString v)) ''sort_order'' = stringArg args ''sort_order''"
      "stringArg (args(''sort_by'' := None)) ''sort_order'' = stringArg args ''sort_order''"
      "stringArg (args(''sort_by'' := None)) ''sort_by'' = ''''"
    by (simp_all add: stringArg_def)
  have empty_invalid: "'''' \<notin> set validSortColumns" by (simp add: validSortColumns_def)
  have n1: "v \<notin> set validSortColumns \<Longrightarrow> searchRecipesSQL e (c(''sort_by'' \<mapsto> v)) =
          (fst (searchRecipesWhere e c) @ '' LIMIT 100'', snd (searchRecipesWhere e c))"
    by (simp add: searchRecipesSQL_def Let_def w so DefaultQuery_upd(1) orderBy_def)
  have n2: "v \<notin> set validSortColumns \<Longrightarrow> mcpSearchRecipesSQL e (args(''sort_by'' \<mapsto> IString v)) =
            (if v = '''' then mcpSearchRecipesSQL e (args(''sort_by'' := None))
             else (fst (mcpSearchRecipesWhere e args) @ '' LIMIT 20'',
                   snd (mcpSearchRecipesWhere e args)))"
  proof (cases "v = []")
    case True
    have "stringArg (args(''sort_by'' \<mapsto> IString [])) ''sort_order'' = stringArg args ''sort_order''"
        "stringArg (args(''sort_by'' \<mapsto> IString [])) ''sort_by'' = []"
        "mcpSearchRecipesWhere e (args(''sort_by'' \<mapsto> IString [])) = mcpSearchRecipesWhere e args"
      by (simp_all add: stringArg_def mcpSearchRecipesWhere_upd[OF assms])
    then show ?thesis unfolding True
      by (simp add: mcpSearchRecipesSQL_def Let_def m sa)
  next
    case False
    assume "v \<notin> set validSortColumns"
    with False show ?thesis
      by (simp add: mcpSearchRecipesSQL_def Let_def m sa stringArg_upd(1) orderBy_def)
  qed
  have n3: "\<not> set v \<subseteq> set queryAlphabet \<Longrightarrow>
              \<not> sublist v (fst (searchRecipesSQL e (c(''sort_by'' \<mapsto> v))))
              \<and> \<not> sublist v (fst (mcpSearchRecipesSQL e (args(''sort_by'' \<mapsto> IString v))))"
    using foreign_not_sublist[OF searchRecipesSQL_alphabet]
      foreign_not_sublist[OF mcpSearchRecipesSQL_alphabet[OF assms]] by blast
  have v1: "v \<in> set validSortColumns \<Longrightarrow> searchRecipesSQL e (c(''sort_by'' \<mapsto> v)) =
          (fst (searchRecipesWhere e c) @ '' ORDER BY '' @ v
             @ (if DefaultQuery c ''sort_order'' ''asc'' = ''desc'' then '' DESC'' else '' ASC'')
             @ '' LIMIT 100'',
           snd (searchRecipesWhere e c))"
    by (simp add: searchRecipesSQL_def Let_def w so DefaultQuery_upd(1) orderBy_def)
  have v2: "v \<in> set validSortColumns \<Longrightarrow> mcpSearchRecipesSQL e (args(''sort_by'' \<mapsto> IString v)) =
            (fst (mcpSearchRecipesWhere e args) @ '' ORDER BY '' @ v
               @ (if stringArg args ''sort_order'' = ''desc'' then '' DESC'' else '' ASC'')
               @ '' LIMIT 20'',
             snd (mcpSearchRecipesWhere e args))"
  proof -
    assume a: "v \<in> set validSortColumns"
    then have "v \<noteq> ''''" using empty_invalid by auto
    then show ?thesis using a
      by (simp add: mcpSearchRecipesSQL_def Let_def m sa stringArg_upd(1) orderBy_def)
  qed
  from n1 n2 n3 v1 v2 show ?thesis by blast
qed

theorem sort_by_whitelist_witness:
  "rangeVisitsAll exampleEnv
   \<and> ''1=1;DROP TABLE recipes'' \<notin> set validSortColumns
   \<and> \<not> set ''1=1;DROP TABLE recipes'' \<subseteq> set queryAlphabet
   \<and> searchRecipesSQL exampleEnv [''search'' \<mapsto> ''soup'', ''sort_by'' \<mapsto> ''1=1;DROP TABLE recipes''] =
       (selectRecipes @ '' AND (name LIKE ? OR description LIKE ?) LIMIT 100'',
        [IString ''%soup%'', IString ''%soup%''])
   \<and> \<not> sublist ''1=1;DROP TABLE recipes''
        (fst (searchRecipesSQL exampleEnv
           [''search'' \<mapsto> ''soup'', ''sort_by'' \<mapsto> ''1=1;DROP TABLE recipes'']))
   \<and> ''protein'' \<in> set validSortColumns
   \<and> searchRecipesSQL exampleEnv [''search'' \<mapsto> ''soup'', ''sort_by'' \<mapsto> ''protein''] =
       (selectRecipes @ '' AND (name LIKE ? OR description LIKE ?) ORDER BY protein ASC LIMIT 100'',
        [IString ''%soup%'', IString ''%soup%''])"
proof -
  have h1: "rangeVisitsAll exampleEnv" by (rule rangeVisitsAll_exampleEnv)
  have h2: "''1=1;DROP TABLE recipes'' \<notin> set validSortColumns"
    by (simp add: validSortColumns_def)
  have h3: "\<not> set ''1=1;DROP TABLE recipes'' \<subseteq> set queryAlphabet"
    using semicolon_foreign by auto
  have h4: "''protein'' \<in> set validSortColumns" by (simp add: validSortColumns_def)
  have r: "searchRecipesWhere exampleEnv [''search'' \<mapsto> ''soup''] =
      (selectRecipes @ '' AND (name LIKE ? OR description LIKE ?)'',
       [IString ''%soup%'', IString ''%soup%''])"
    by (simp add: eval_defs)
  note w1 = sort_by_whitelist[where e = exampleEnv and v = "''1=1;DROP TABLE recipes''"
      and c = "[''search'' \<mapsto> ''soup'']" and args = Map.empty, OF h1, THEN conjunct1, rule_format, OF h2]
  note w2 = sort_by_whitelist[where e = exampleEnv and v = "''protein''"
      and c = "[''search'' \<mapsto> ''soup'']" and args = Map.empty, OF h1, THEN conjunct2, rule_format, OF h4]
  have c1: "searchRecipesSQL exampleEnv [''search'' \<mapsto> ''soup'', ''sort_by'' \<mapsto> ''1=1;DROP TABLE recipes''] =
       (selectRecipes @ '' AND (name LIKE ? OR description LIKE ?) LIMIT 100'',
        [IString ''%soup%'', IString ''%soup%''])"
    using w1[THEN conjunct1] by (simp add: r)
  have c2: "\<not> sublist ''1=1;DROP TABLE recipes''
        (fst (searchRecipesSQL exampleEnv
           [''search'' \<mapsto> ''soup'', ''sort_by'' \<mapsto> ''1=1;DROP TABLE recipes'']))"
    using w1[THEN conjunct2, THEN conjunct2] h3 by blast
  have c3: "searchRecipesSQL exampleEnv [''search'' \<mapsto> ''soup'', ''sort_by'' \<mapsto> ''protein''] =
       (selectRecipes @ '' AND (name LIKE ? OR description LIKE ?) ORDER BY protein ASC LIMIT 100'',
        [IString ''%soup%'', IString ''%soup%''])"
    using w2[THEN conjunct1] by (simp add: r DefaultQuery_def)
  from h1 h2 h3 c1 c2 h4 c3 show ?thesis by (intro conjI)
qed


end
